theory Spec2Isabelle
  imports Main "HOL-Library.Sublist" "HOL-Library.Word"
begin

section \<open>Strings of the C++ standard library\<close>

text \<open>
  A \<^verbatim>\<open>std::string\<close> is a sequence of bytes, so it is a \<^typ>\<open>string\<close> (a list of
  8-bit \<^typ>\<open>char\<close>). The member functions used by the sources are modelled below;
  \<^verbatim>\<open>npos\<close> is \<^term>\<open>None\<close>.
\<close>

text \<open>Comparison of the needle with the text at the current position.\<close>

fun starts_with :: "string \<Rightarrow> string \<Rightarrow> bool" where
  "starts_with [] s = True"
| "starts_with (n # ns) [] = False"
| "starts_with (n # ns) (c # cs) = (n = c \<and> starts_with ns cs)"

text \<open>\<^verbatim>\<open>s.find(needle)\<close>: the index of the first occurrence, scanning from index 0.\<close>

fun string_find :: "string \<Rightarrow> string \<Rightarrow> nat option" where
  "string_find [] needle = (if needle = [] then Some 0 else None)"
| "string_find (c # cs) needle =
     (if starts_with needle (c # cs) then Some 0
      else map_option Suc (string_find cs needle))"

text \<open>\<^verbatim>\<open>s.find_last_of(ch)\<close>: the index of the last occurrence of one character.\<close>

fun find_last_of :: "string \<Rightarrow> char \<Rightarrow> nat option" where
  "find_last_of [] ch = None"
| "find_last_of (c # cs) ch =
     (case find_last_of cs ch of
        Some i \<Rightarrow> Some (Suc i)
      | None \<Rightarrow> (if c = ch then Some 0 else None))"

text \<open>\<^verbatim>\<open>s.substr(pos, n)\<close> for \<^verbatim>\<open>pos <= s.size()\<close> (the sources never call it otherwise).\<close>

definition substr :: "string \<Rightarrow> nat \<Rightarrow> nat \<Rightarrow> string" where
  "substr s pos n = take n (drop pos s)"

text \<open>
  A \<^verbatim>\<open>const char*\<close> is read up to its first NUL byte. This is what \<^verbatim>\<open>s.c_str()\<close>
  gives to a function that takes a C string, and what the assignment of a
  \<^verbatim>\<open>const char*\<close> to a \<^verbatim>\<open>std::string\<close> copies.
\<close>

definition c_str :: "string \<Rightarrow> string" where
  "c_str s = takeWhile (\<lambda>c. c \<noteq> CHR 0x00) s"

text \<open>
  \<^verbatim>\<open>a < b\<close> on \<^verbatim>\<open>std::string\<close>, the order in which a \<^verbatim>\<open>std::map\<close> with string keys
  is traversed: bytes are compared as unsigned numbers, and a proper prefix comes first.
\<close>

fun string_less :: "string \<Rightarrow> string \<Rightarrow> bool" where
  "string_less [] [] = False"
| "string_less [] (d # ds) = True"
| "string_less (c # cs) [] = False"
| "string_less (c # cs) (d # ds) =
     ((of_char c :: nat) < of_char d \<or> (c = d \<and> string_less cs ds))"

section \<open>Validation of a play address (spider-bridge.cpp, nativeValidatePlayUrl)\<close>

definition nativeValidatePlayUrl :: "string \<Rightarrow> bool" where
  "nativeValidatePlayUrl urlString =
     (string_find urlString ''http'' = Some 0 \<and>
      (string_find urlString ''.m3u8'' \<noteq> None \<or>
       string_find urlString ''.mp4'' \<noteq> None \<or>
       string_find urlString ''.flv'' \<noteq> None \<or>
       string_find urlString ''.avi'' \<noteq> None \<or>
       string_find urlString ''.mkv'' \<noteq> None))"

section \<open>The registry of script contexts (quickjs-android.cpp)\<close>

text \<open>
  \<^verbatim>\<open>jlong\<close> is a signed 64-bit integer: a 64-bit word read through \<^const>\<open>sint\<close>.
\<close>

type_synonym jlong = "64 word"

text \<open>
  The QuickJS engine is a library outside the repository. A value handed back by the engine
  is modelled by what the sources observe of it: whether it is the exception marker
  (\<^verbatim>\<open>JS_IsException\<close>), whether it is undefined (\<^verbatim>\<open>JS_IsUndefined\<close>), and the
  outcome of \<^verbatim>\<open>JS_ToCString\<close>, which is \<^term>\<open>None\<close> for a null pointer. For the
  exception marker the string is the conversion of the pending exception fetched with
  \<^verbatim>\<open>JS_GetException\<close>.
\<close>

datatype JSValue =
    JS_EXCEPTION "string option"
  | JS_UNDEFINED
  | JS_VALUE "string option"

fun JS_IsException :: "JSValue \<Rightarrow> bool" where
  "JS_IsException (JS_EXCEPTION e) = True"
| "JS_IsException v = False"

fun JS_IsUndefined :: "JSValue \<Rightarrow> bool" where
  "JS_IsUndefined JS_UNDEFINED = True"
| "JS_IsUndefined v = False"

fun JS_ToCString :: "JSValue \<Rightarrow> string option" where
  "JS_ToCString (JS_EXCEPTION e) = e"
| "JS_ToCString JS_UNDEFINED = Some ''undefined''"
| "JS_ToCString (JS_VALUE s) = s"

text \<open>
  A \<^verbatim>\<open>JSContext\<close> is modelled by the answers of the four engine entry points that the
  boundary functions call on it.
\<close>

record JSContext =
  JS_Eval :: "string \<Rightarrow> JSValue"
  JS_GetPropertyStr_global :: "string \<Rightarrow> JSValue"
  JS_ParseJSON :: "string \<Rightarrow> JSValue"
  JS_Call :: "JSValue \<Rightarrow> JSValue \<Rightarrow> JSValue"

record QuickJSContextWrapper =
  wrapper_context :: JSContext
  isValid :: bool

text \<open>
  The globals \<^verbatim>\<open>g_contexts\<close> (a \<^verbatim>\<open>std::map\<close> from identity to wrapper) and
  \<^verbatim>\<open>g_next_context_id\<close>, initially 1.
\<close>

record registry =
  g_contexts :: "jlong \<rightharpoonup> QuickJSContextWrapper"
  g_next_context_id :: jlong

definition initial_registry :: registry where
  "initial_registry = \<lparr>g_contexts = Map.empty, g_next_context_id = 1\<rparr>"

text \<open>
  What a C++ expression evaluated inside a \<^verbatim>\<open>try\<close> block does: it raises a
  \<^verbatim>\<open>std::exception\<close> (carrying its \<^verbatim>\<open>what()\<close> text) or it returns.
\<close>

datatype 'a cxx = Throws string | Returns 'a

text \<open>
  \<^verbatim>\<open>createJSContext\<close>. The argument is the outcome of
  \<^verbatim>\<open>std::make_unique<QuickJSContextWrapper>()\<close>, whose constructor sets
  \<^verbatim>\<open>isValid\<close> only when runtime and context were created. The result is the returned
  identity and the registry afterwards.
\<close>

definition createJSContext ::
  "QuickJSContextWrapper cxx \<Rightarrow> registry \<Rightarrow> jlong \<times> registry" where
  "createJSContext make_unique g =
     (case make_unique of
        Throws e \<Rightarrow> (0, g)
      | Returns context \<Rightarrow>
          if \<not> isValid context then (0, g)
          else
            let contextId = g_next_context_id g
            in (contextId,
                g\<lparr>g_contexts := (g_contexts g)(contextId \<mapsto> context),
                  g_next_context_id := contextId + 1\<rparr>))"

text \<open>\<^verbatim>\<open>destroyJSContext\<close>: erase the entry when it is found, otherwise only log.\<close>

definition destroyJSContext :: "jlong \<Rightarrow> registry \<Rightarrow> registry" where
  "destroyJSContext context_id g =
     (case g_contexts g context_id of
        Some it \<Rightarrow> g\<lparr>g_contexts := (g_contexts g)(context_id := None)\<rparr>
      | None \<Rightarrow> g)"

text \<open>Any interleaving of further registry calls.\<close>

datatype registry_call = Create "QuickJSContextWrapper cxx" | Destroy jlong

fun registry_step :: "registry_call \<Rightarrow> registry \<Rightarrow> registry" where
  "registry_step (Create make_unique) g = snd (createJSContext make_unique g)"
| "registry_step (Destroy context_id) g = destroyJSContext context_id g"

definition registry_run :: "registry_call list \<Rightarrow> registry \<Rightarrow> registry" where
  "registry_run calls g = fold registry_step calls g"

subsection \<open>The evaluation boundary\<close>

text \<open>
  \<^verbatim>\<open>nativeEvaluateScript\<close>. The first argument is \<^term>\<open>Some w\<close> when a
  \<^verbatim>\<open>std::exception\<close> with \<^verbatim>\<open>what() = w\<close> is raised inside the \<^verbatim>\<open>try\<close> block
  (a failed allocation, a failed lock); the \<^verbatim>\<open>catch\<close> clause then builds the answer.
\<close>

definition nativeEvaluateScript ::
  "string option \<Rightarrow> registry \<Rightarrow> jlong \<Rightarrow> string \<Rightarrow> string" where
  "nativeEvaluateScript raised g context_id scriptStr =
     (case raised of
        Some what \<Rightarrow> ''ERROR: '' @ what
      | None \<Rightarrow>
         (case g_contexts g context_id of
            None \<Rightarrow> ''ERROR: Context not found''
          | Some contextWrapper \<Rightarrow>
              if \<not> isValid contextWrapper then ''ERROR: Context is invalid''
              else
                let result = JS_Eval (wrapper_context contextWrapper) scriptStr
                in if JS_IsException result then
                     (case JS_ToCString result of
                        Some errorStr \<Rightarrow> ''ERROR: '' @ errorStr
                      | None \<Rightarrow> ''ERROR: Unknown JavaScript error'')
                   else if JS_IsUndefined result then []
                   else (case JS_ToCString result of
                           Some resultCStr \<Rightarrow> resultCStr
                         | None \<Rightarrow> [])))"

text \<open>\<^verbatim>\<open>nativeCallFunction\<close>, with the same convention for the first argument.\<close>

definition nativeCallFunction ::
  "string option \<Rightarrow> registry \<Rightarrow> jlong \<Rightarrow> string \<Rightarrow> string \<Rightarrow> string" where
  "nativeCallFunction raised g context_id funcName argsStr =
     (case raised of
        Some what \<Rightarrow> ''ERROR: '' @ what
      | None \<Rightarrow>
         (case g_contexts g context_id of
            None \<Rightarrow> ''ERROR: Context not found''
          | Some contextWrapper \<Rightarrow>
              if \<not> isValid contextWrapper then ''ERROR: Context is invalid''
              else
                let func = JS_GetPropertyStr_global (wrapper_context contextWrapper) funcName
                in if JS_IsUndefined func then ''ERROR: Function not found: '' @ funcName
                   else
                     let args = JS_ParseJSON (wrapper_context contextWrapper) argsStr
                     in if JS_IsException args then ''ERROR: Invalid JSON arguments''
                        else
                          let result = JS_Call (wrapper_context contextWrapper) func args
                          in if JS_IsException result then
                               (case JS_ToCString result of
                                  Some errorStr \<Rightarrow> ''ERROR: '' @ errorStr
                                | None \<Rightarrow> ''ERROR: Unknown function call error'')
                             else (case JS_ToCString result of
                                     Some resultCStr \<Rightarrow> resultCStr
                                   | None \<Rightarrow> [])))"

text \<open>
  A context whose engine answers undefined to every request, and a valid wrapper around
  it: concrete inhabitants used to exercise the theorems.
\<close>

definition idle_context :: JSContext where
  "idle_context =
     \<lparr>JS_Eval = (\<lambda>s. JS_UNDEFINED),
      JS_GetPropertyStr_global = (\<lambda>s. JS_UNDEFINED),
      JS_ParseJSON = (\<lambda>s. JS_UNDEFINED),
      JS_Call = (\<lambda>f a. JS_UNDEFINED)\<rparr>"

definition idle_wrapper :: QuickJSContextWrapper where
  "idle_wrapper = \<lparr>wrapper_context = idle_context, isValid = True\<rparr>"

text \<open>
  A context in which every script fails: evaluation raises a syntax error, only the global
  \<open>run\<close> is defined, only \<open>[]\<close> parses as JSON, and every call raises an exception that
  has no string conversion.
\<close>

definition failing_context :: JSContext where
  "failing_context =
     \<lparr>JS_Eval = (\<lambda>s. JS_EXCEPTION (Some ''SyntaxError: unexpected token'')),
      JS_GetPropertyStr_global =
        (\<lambda>n. if n = ''run'' then JS_VALUE (Some ''function run() {}'') else JS_UNDEFINED),
      JS_ParseJSON =
        (\<lambda>s. if s = ''[]'' then JS_VALUE (Some []) else JS_EXCEPTION (Some ''SyntaxError'')),
      JS_Call = (\<lambda>f a. JS_EXCEPTION None)\<rparr>"

definition failing_wrapper :: QuickJSContextWrapper where
  "failing_wrapper = \<lparr>wrapper_context = failing_context, isValid = True\<rparr>"

section \<open>The HTTP capability of scripts (quickjs-android.cpp)\<close>

text \<open>
  \<^verbatim>\<open>long\<close> is taken as 64 bits wide (the LP64 targets); \<^verbatim>\<open>int32_t\<close> is a 32-bit word.
  The \<^verbatim>\<open>std::map<std::string, std::string>\<close> of a request is a partial function on
  strings. The one of a response is traversed by the verbs, so it is the list of its
  entries in the order of the keys.
\<close>

type_synonym long = "64 word"
type_synonym int32_t = "32 word"

record HttpResponse =
  response_data :: string
  responseCode :: long
  contentType :: string
  response_headers :: "(string \<times> string) list"

text \<open>The constructor \<^verbatim>\<open>HttpResponse() : responseCode(0)\<close>.\<close>

definition HttpResponse_new :: HttpResponse where
  "HttpResponse_new =
     \<lparr>response_data = [], responseCode = 0, contentType = [], response_headers = []\<rparr>"

record HttpRequest =
  request_url :: string
  request_method :: string
  request_data :: string
  request_headers :: "string \<rightharpoonup> string"
  request_timeout :: long

text \<open>The constructor \<^verbatim>\<open>HttpRequest() : method("GET"), timeout(15000)\<close>.\<close>

definition HttpRequest_new :: HttpRequest where
  "HttpRequest_new =
     \<lparr>request_url = [], request_method = ''GET'', request_data = [],
      request_headers = Map.empty, request_timeout = 15000\<rparr>"

subsection \<open>The transport\<close>

text \<open>
  libcurl is outside the repository. What it does with one request is a parameter of the
  model: \<^verbatim>\<open>curl_easy_init\<close> fails, or \<^verbatim>\<open>curl_easy_perform\<close> runs, hands header lines
  and body chunks to the two callbacks and ends with a \<^verbatim>\<open>CURLcode\<close> (a failure carries
  the \<^verbatim>\<open>const char*\<close> of \<^verbatim>\<open>curl_easy_strerror\<close>) and the protocol status read by
  \<^verbatim>\<open>curl_easy_getinfo\<close>; or a \<^verbatim>\<open>std::exception\<close> is raised while the request is set up,
  before \<^verbatim>\<open>curl_easy_perform\<close> is reached.
\<close>

datatype CURLcode = CURLE_OK | CURLE_failure string

datatype curl_transfer =
    curl_easy_init_failed
  | curl_easy_perform "string list" "string list" CURLcode long
  | curl_setup_raised string

text \<open>
  \<^verbatim>\<open>s.erase(0, s.find_first_not_of(chars))\<close> and
  \<^verbatim>\<open>s.erase(s.find_last_not_of(chars) + 1)\<close>; when every character is in \<open>chars\<close> both
  leave the empty string (\<^verbatim>\<open>npos + 1\<close> is 0).
\<close>

definition erase_leading :: "string \<Rightarrow> string \<Rightarrow> string" where
  "erase_leading chars s = dropWhile (\<lambda>c. c \<in> set chars) s"

definition erase_trailing :: "string \<Rightarrow> string \<Rightarrow> string" where
  "erase_trailing chars s = rev (dropWhile (\<lambda>c. c \<in> set chars) (rev s))"

definition WriteCallback :: "string \<Rightarrow> HttpResponse \<Rightarrow> HttpResponse" where
  "WriteCallback contents response =
     response\<lparr>response_data := response_data response @ contents\<rparr>"

text \<open>\<^verbatim>\<open>headers[key] = value\<close> on the entries of a \<^verbatim>\<open>std::map\<close>.\<close>

fun map_assign :: "string \<Rightarrow> string \<Rightarrow> (string \<times> string) list \<Rightarrow> (string \<times> string) list" where
  "map_assign key value [] = [(key, value)]"
| "map_assign key value ((k, v) # entries) =
     (if key = k then (key, value) # entries
      else if string_less key k then (key, value) # (k, v) # entries
      else (k, v) # map_assign key value entries)"

definition HeaderCallback :: "string \<Rightarrow> HttpResponse \<Rightarrow> HttpResponse" where
  "HeaderCallback header response =
     (case string_find header '':'' of
        None \<Rightarrow> response
      | Some colonPos \<Rightarrow>
          let key = erase_trailing [CHR '' '', CHR 0x09, CHR 0x0D, CHR 0x0A]
                      (erase_leading [CHR '' '', CHR 0x09] (substr header 0 colonPos));
              value = erase_trailing [CHR '' '', CHR 0x09, CHR 0x0D, CHR 0x0A]
                        (erase_leading [CHR '' '', CHR 0x09] (drop (colonPos + 1) header));
              response' = response\<lparr>response_headers :=
                            map_assign key value (response_headers response)\<rparr>
          in if key = ''Content-Type'' \<or> key = ''content-type''
             then response'\<lparr>contentType := value\<rparr>
             else response')"

text \<open>
  A C++ function runs on the thread that calls it. A thread is named by a number, and every
  function that may reach libcurl takes the thread that runs it as its first argument.
  Besides its value it answers with the transfers that were carried out while it ran: for
  each call of \<^verbatim>\<open>curl_easy_perform\<close> that returned, the thread that made the call and the
  request.
\<close>

type_synonym thread = nat

type_synonym transfers = "(thread \<times> HttpRequest) list"

text \<open>\<^verbatim>\<open>performHttpRequest\<close>, the variant compiled with libcurl.\<close>

definition performHttpRequest ::
  "thread \<Rightarrow> (HttpRequest \<Rightarrow> curl_transfer) \<Rightarrow> HttpRequest \<Rightarrow> transfers \<times> HttpResponse" where
  "performHttpRequest self curl request =
     (case curl request of
        curl_easy_init_failed \<Rightarrow>
          ([], HttpResponse_new\<lparr>responseCode := - 1,
                 response_data := ''ERROR: Failed to initialize CURL''\<rparr>)
      | curl_easy_perform header_lines chunks res code \<Rightarrow>
          let response = fold WriteCallback chunks (fold HeaderCallback header_lines HttpResponse_new)
          in ([(self, request)],
              case res of
                CURLE_failure strerror \<Rightarrow>
                  response\<lparr>responseCode := - 1,
                    response_data := ''ERROR: '' @ c_str strerror\<rparr>
              | CURLE_OK \<Rightarrow> response\<lparr>responseCode := code\<rparr>)
      | curl_setup_raised what \<Rightarrow>
          ([], HttpResponse_new\<lparr>responseCode := - 1,
                 response_data := ''ERROR: '' @ c_str what\<rparr>))"

text \<open>
  \<^verbatim>\<open>performHttpRequestAsync\<close>: \<^verbatim>\<open>std::async\<close> with the policy \<^verbatim>\<open>std::launch::async\<close> runs
  its task on a thread of its own and hands back a \<^verbatim>\<open>std::future\<close> at once. The future
  is modelled by the thread of the task and by what the task does there; the caller has
  carried out no transfer when it receives the future. No function of the sources calls
  \<^verbatim>\<open>performHttpRequestAsync\<close>.
\<close>

datatype 'a future = std_async thread 'a

definition performHttpRequestAsync ::
  "thread \<Rightarrow> (HttpRequest \<Rightarrow> curl_transfer) \<Rightarrow> HttpRequest
     \<Rightarrow> transfers \<times> (transfers \<times> HttpResponse) future" where
  "performHttpRequestAsync task curl request =
     ([], std_async task (performHttpRequest task curl request))"

text \<open>
  The variant compiled without libcurl (\<^verbatim>\<open>HTTP_SUPPORT_ENABLED\<close> is 0). It sends nothing.
  The struct \<^verbatim>\<open>HttpRequest\<close> is declared in the libcurl branch of the conditional only.
\<close>

definition performHttpRequest_stub :: "HttpRequest \<Rightarrow> HttpResponse" where
  "performHttpRequest_stub request =
     HttpResponse_new\<lparr>responseCode := 200, contentType := ''application/json'',
       response_data :=
         [CHR ''{'', CHR 0x0A] @
         ''        \"error\": \"HTTP_NOT_SUPPORTED\",'' @ [CHR 0x0A] @
         ''        \"message\": \"libcurl not available. Please install libcurl to enable HTTP functionality.\",''
           @ [CHR 0x0A] @
         ''        \"url\": \"'' @ request_url request @ [CHR 0x22, CHR '','', CHR 0x0A] @
         ''        \"method\": \"'' @ request_method request @ [CHR 0x22, CHR 0x0A] @
         ''    }''\<rparr>"

subsection \<open>Script values\<close>

text \<open>
  An argument passed by the script is modelled by what the engine answers about it:
  \<^verbatim>\<open>JS_ToCString\<close> (\<^term>\<open>None\<close> for a null pointer), \<^verbatim>\<open>JS_IsObject\<close>,
  \<^verbatim>\<open>JS_GetOwnPropertyNames\<close> (\<^term>\<open>None\<close> when it does not return 0, otherwise for each
  own property the \<^verbatim>\<open>JS_ToCString\<close> of its key and of its value), \<^verbatim>\<open>JS_ToInt32\<close>
  (\<^term>\<open>None\<close> when it does not return 0) and the properties found by
  \<^verbatim>\<open>JS_GetPropertyStr\<close>.
\<close>

datatype JSValueConst =
  JSValueConst
    (ToCString: "string option")
    (IsObject: bool)
    (OwnPropertyNames: "(string option \<times> string option) list option")
    (ToInt32: "int32_t option")
    (Properties: "(string \<times> JSValueConst) list")

definition js_undefined :: JSValueConst where
  "js_undefined = JSValueConst (Some ''undefined'') False None (Some 0) []"

definition JS_GetPropertyStr :: "JSValueConst \<Rightarrow> string \<Rightarrow> JSValueConst" where
  "JS_GetPropertyStr obj prop =
     (case map_of (Properties obj) prop of Some v \<Rightarrow> v | None \<Rightarrow> js_undefined)"

text \<open>A string value, as a script passes for a URL or a body.\<close>

definition js_string :: "string \<Rightarrow> JSValueConst" where
  "js_string s = JSValueConst (Some s) False None None []"

text \<open>The values built by the bridge, and the exceptions it throws into the script.\<close>

datatype JSObject =
    JS_NewInt32 int32_t
  | JS_NewString string
  | JS_NewObject "string \<Rightarrow> JSObject option"

datatype JSThrow = TypeError string | InternalError string

text \<open>
  The loop over the own properties of a headers object:
  \<^verbatim>\<open>if (keyStr && valueStr) request.headers[keyStr] = valueStr\<close>, where both are
  \<^verbatim>\<open>const char*\<close>.
\<close>

fun set_headers ::
  "(string option \<times> string option) list \<Rightarrow> (string \<rightharpoonup> string) \<Rightarrow> (string \<rightharpoonup> string)" where
  "set_headers [] headers = headers"
| "set_headers ((Some keyStr, Some valueStr) # props) headers =
     set_headers props (headers(c_str keyStr \<mapsto> c_str valueStr))"
| "set_headers (p # props) headers = set_headers props headers"

text \<open>The optional headers argument at index \<open>i\<close> of the argument vector.\<close>

definition optional_headers ::
  "JSValueConst list \<Rightarrow> nat \<Rightarrow> (string \<rightharpoonup> string) \<Rightarrow> (string \<rightharpoonup> string)" where
  "optional_headers argv i headers =
     (if length argv \<ge> i + 1 \<and> IsObject (argv ! i) then
        (case OwnPropertyNames (argv ! i) of
           Some props \<Rightarrow> set_headers props headers
         | None \<Rightarrow> headers)
      else headers)"

text \<open>
  The headers object of a response value: for each entry, in the order of the map,
  \<^verbatim>\<open>JS_SetPropertyStr(ctx, headersObj, header.first.c_str(),
  JS_NewString(ctx, header.second.c_str()))\<close>; a property set twice keeps the later value.
\<close>

definition headersObj :: "HttpResponse \<Rightarrow> JSObject" where
  "headersObj response =
     JS_NewObject
       (fold (\<lambda>(key, value) props. props(c_str key \<mapsto> JS_NewString (c_str value)))
          (response_headers response) Map.empty)"

subsection \<open>The verbs\<close>

text \<open>
  The verbs are the C functions that \<^verbatim>\<open>initHttp\<close> registers with
  \<^verbatim>\<open>JS_NewCFunction\<close>. The engine calls such a function when the script calls the global
  of that name, on the thread on which the script is being evaluated, and the value or the
  exception that the function returns is what the call yields in the script.

  Each verb takes the thread that runs it, the \<^verbatim>\<open>std::exception\<close> raised inside its
  \<^verbatim>\<open>try\<close> block while the request is built, if any (\<^term>\<open>Some w\<close> with the
  \<^verbatim>\<open>what()\<close> text), the transport, and the argument vector (\<^verbatim>\<open>argc\<close> is its length).
  It answers with the transfers carried out when it returns, and with a thrown script
  exception or a value. The strings of the response reach the engine through
  \<^verbatim>\<open>c_str()\<close>, and the strings of the script reach the request as \<^verbatim>\<open>const char*\<close>.
\<close>

type_synonym verb =
  "thread \<Rightarrow> string option \<Rightarrow> (HttpRequest \<Rightarrow> curl_transfer) \<Rightarrow> JSValueConst list
     \<Rightarrow> transfers \<times> (JSThrow + JSObject)"

definition js_http_get :: verb where
  "js_http_get self raised curl argv =
     (if length argv < 1 then ([], Inl (TypeError ''httpGet requires at least 1 argument''))
      else case ToCString (argv ! 0) of
        None \<Rightarrow> ([], Inl (TypeError ''URL must be a string''))
      | Some url \<Rightarrow>
         (case raised of
            Some what \<Rightarrow> ([], Inl (InternalError (''HTTP request failed: '' @ what)))
          | None \<Rightarrow>
              let request = HttpRequest_new\<lparr>request_url := c_str url, request_method := ''GET'',
                              request_timeout := 15000\<rparr>;
                  request = request\<lparr>request_headers := (request_headers request)
                              (''Accept'' \<mapsto> ''application/json, text/plain, */*'',
                               ''Accept-Language'' \<mapsto> ''zh-CN,zh;q=0.9,en;q=0.8'')\<rparr>;
                  request = request\<lparr>request_headers :=
                              optional_headers argv 1 (request_headers request)\<rparr>;
                  (performed, response) = performHttpRequest self curl request
              in (performed, Inr (JS_NewObject
                   [''status'' \<mapsto> JS_NewInt32 (ucast (responseCode response)),
                    ''data'' \<mapsto> JS_NewString (c_str (response_data response)),
                    ''contentType'' \<mapsto> JS_NewString (c_str (contentType response)),
                    ''headers'' \<mapsto> headersObj response]))))"

definition js_http_post :: verb where
  "js_http_post self raised curl argv =
     (if length argv < 2 then ([], Inl (TypeError ''httpPost requires at least 2 arguments''))
      else case (ToCString (argv ! 0), ToCString (argv ! 1)) of
        (Some url, Some data) \<Rightarrow>
         (case raised of
            Some what \<Rightarrow> ([], Inl (InternalError (''HTTP POST request failed: '' @ what)))
          | None \<Rightarrow>
              let request = HttpRequest_new\<lparr>request_url := c_str url, request_method := ''POST'',
                              request_data := c_str data, request_timeout := 15000\<rparr>;
                  request = request\<lparr>request_headers := (request_headers request)
                              (''Accept'' \<mapsto> ''application/json, text/plain, */*'',
                               ''Content-Type'' \<mapsto> ''application/json; charset=UTF-8'',
                               ''Accept-Language'' \<mapsto> ''zh-CN,zh;q=0.9,en;q=0.8'')\<rparr>;
                  request = request\<lparr>request_headers :=
                              optional_headers argv 2 (request_headers request)\<rparr>;
                  (performed, response) = performHttpRequest self curl request
              in (performed, Inr (JS_NewObject
                   [''status'' \<mapsto> JS_NewInt32 (ucast (responseCode response)),
                    ''data'' \<mapsto> JS_NewString (c_str (response_data response)),
                    ''contentType'' \<mapsto> JS_NewString (c_str (contentType response)),
                    ''headers'' \<mapsto> headersObj response])))
      | _ \<Rightarrow> ([], Inl (TypeError ''URL and data must be strings'')))"

definition js_http_put :: verb where
  "js_http_put self raised curl argv =
     (if length argv < 2 then ([], Inl (TypeError ''httpPut requires at least 2 arguments''))
      else case (ToCString (argv ! 0), ToCString (argv ! 1)) of
        (Some url, Some data) \<Rightarrow>
         (case raised of
            Some what \<Rightarrow> ([], Inl (InternalError (''HTTP PUT request failed: '' @ what)))
          | None \<Rightarrow>
              let request = HttpRequest_new\<lparr>request_url := c_str url, request_method := ''PUT'',
                              request_data := c_str data, request_timeout := 15000\<rparr>;
                  request = request\<lparr>request_headers := (request_headers request)
                              (''Accept'' \<mapsto> ''application/json, text/plain, */*'',
                               ''Content-Type'' \<mapsto> ''application/json; charset=UTF-8'')\<rparr>;
                  (performed, response) = performHttpRequest self curl request
              in (performed, Inr (JS_NewObject
                   [''status'' \<mapsto> JS_NewInt32 (ucast (responseCode response)),
                    ''data'' \<mapsto> JS_NewString (c_str (response_data response))])))
      | _ \<Rightarrow> ([], Inl (TypeError ''URL and data must be strings'')))"

definition js_http_delete :: verb where
  "js_http_delete self raised curl argv =
     (if length argv < 1 then ([], Inl (TypeError ''httpDelete requires at least 1 argument''))
      else case ToCString (argv ! 0) of
        None \<Rightarrow> ([], Inl (TypeError ''URL must be a string''))
      | Some url \<Rightarrow>
         (case raised of
            Some what \<Rightarrow> ([], Inl (InternalError (''HTTP DELETE request failed: '' @ what)))
          | None \<Rightarrow>
              let request = HttpRequest_new\<lparr>request_url := c_str url, request_method := ''DELETE'',
                              request_timeout := 15000\<rparr>;
                  (performed, response) = performHttpRequest self curl request
              in (performed, Inr (JS_NewObject
                   [''status'' \<mapsto> JS_NewInt32 (ucast (responseCode response)),
                    ''data'' \<mapsto> JS_NewString (c_str (response_data response))]))))"

text \<open>
  \<^verbatim>\<open>js_http_head\<close>: the response value carries the status and the headers only (the
  source comments that a HEAD request returns header information only).
\<close>

definition js_http_head :: verb where
  "js_http_head self raised curl argv =
     (if length argv < 1 then ([], Inl (TypeError ''httpHead requires at least 1 argument''))
      else case ToCString (argv ! 0) of
        None \<Rightarrow> ([], Inl (TypeError ''URL must be a string''))
      | Some url \<Rightarrow>
         (case raised of
            Some what \<Rightarrow> ([], Inl (InternalError (''HTTP HEAD request failed: '' @ what)))
          | None \<Rightarrow>
              let request = HttpRequest_new\<lparr>request_url := c_str url, request_method := ''HEAD'',
                              request_timeout := 15000\<rparr>;
                  (performed, response) = performHttpRequest self curl request
              in (performed, Inr (JS_NewObject
                   [''status'' \<mapsto> JS_NewInt32 (ucast (responseCode response)),
                    ''headers'' \<mapsto> headersObj response]))))"

definition js_http_request :: verb where
  "js_http_request self raised curl argv =
     (if length argv < 1 \<or> \<not> IsObject (argv ! 0)
      then ([], Inl (TypeError ''httpRequest requires an options object''))
      else case raised of
        Some what \<Rightarrow> ([], Inl (InternalError (''HTTP request failed: '' @ what)))
      | None \<Rightarrow>
          let urlVal = JS_GetPropertyStr (argv ! 0) ''url'';
              methodVal = JS_GetPropertyStr (argv ! 0) ''method'';
              dataVal = JS_GetPropertyStr (argv ! 0) ''data'';
              headersVal = JS_GetPropertyStr (argv ! 0) ''headers'';
              timeoutVal = JS_GetPropertyStr (argv ! 0) ''timeout''
          in case ToCString urlVal of
               None \<Rightarrow> ([], Inl (TypeError ''URL is required''))
             | Some url \<Rightarrow>
                 let request = HttpRequest_new\<lparr>request_url := c_str url\<rparr>;
                     request = (case ToCString methodVal of
                                  Some method \<Rightarrow> request\<lparr>request_method := c_str method\<rparr>
                                | None \<Rightarrow> request);
                     request = (case ToCString dataVal of
                                  Some data \<Rightarrow> request\<lparr>request_data := c_str data\<rparr>
                                | None \<Rightarrow> request);
                     request = (case ToInt32 timeoutVal of
                                  Some timeout \<Rightarrow>
                                    if 0 <s timeout then request\<lparr>request_timeout := scast timeout\<rparr>
                                    else request
                                | None \<Rightarrow> request);
                     request = (if IsObject headersVal then
                                  (case OwnPropertyNames headersVal of
                                     Some props \<Rightarrow>
                                       request\<lparr>request_headers :=
                                         set_headers props (request_headers request)\<rparr>
                                   | None \<Rightarrow> request)
                                else request);
                     (performed, response) = performHttpRequest self curl request
                 in (performed, Inr (JS_NewObject
                      [''status'' \<mapsto> JS_NewInt32 (ucast (responseCode response)),
                       ''data'' \<mapsto> JS_NewString (c_str (response_data response)),
                       ''contentType'' \<mapsto> JS_NewString (c_str (contentType response)),
                       ''headers'' \<mapsto> headersObj response])))"

text \<open>
  The two verbs with an asynchronous name call their counterparts directly, so on the
  thread that runs them; they do not call \<^verbatim>\<open>performHttpRequestAsync\<close>.
\<close>

definition js_http_get_async :: verb where
  "js_http_get_async self raised curl argv = js_http_get self raised curl argv"

definition js_http_post_async :: verb where
  "js_http_post_async self raised curl argv = js_http_post self raised curl argv"

subsection \<open>Notions used to state the properties of the verbs\<close>

text \<open>A transport failure: everything but a performed transfer that ended with \<^verbatim>\<open>CURLE_OK\<close>.\<close>

fun transport_failed :: "curl_transfer \<Rightarrow> bool" where
  "transport_failed (curl_easy_perform header_lines chunks CURLE_OK code) = False"
| "transport_failed t = True"

text \<open>The properties of a response value; a value that is not an object has none.\<close>

fun property :: "JSObject \<Rightarrow> string \<Rightarrow> JSObject option" where
  "property (JS_NewObject props) name = props name"
| "property v name = None"

text \<open>
  What a script can read from the answer of a verb: the \<open>status\<close>, the \<open>data\<close> and the
  \<open>error\<close> of a response value, and whether the answer is a thrown exception of either
  kind.
\<close>

definition answer_status :: "JSThrow + JSObject \<Rightarrow> JSObject option" where
  "answer_status r = (case r of Inr v \<Rightarrow> property v ''status'' | Inl e \<Rightarrow> None)"

definition answer_data :: "JSThrow + JSObject \<Rightarrow> JSObject option" where
  "answer_data r = (case r of Inr v \<Rightarrow> property v ''data'' | Inl e \<Rightarrow> None)"

definition answer_error :: "JSThrow + JSObject \<Rightarrow> JSObject option" where
  "answer_error r = (case r of Inr v \<Rightarrow> property v ''error'' | Inl e \<Rightarrow> None)"

fun is_TypeError :: "JSThrow + JSObject \<Rightarrow> bool" where
  "is_TypeError (Inl (TypeError m)) = True"
| "is_TypeError r = False"

fun is_InternalError :: "JSThrow + JSObject \<Rightarrow> bool" where
  "is_InternalError (Inl (InternalError m)) = True"
| "is_InternalError r = False"

text \<open>
  The arguments that a verb accepts, with the URL that it takes from them: the first
  argument as a string; the first of two string arguments; the property \<open>url\<close> of an
  options object. For any other argument vector the answer is \<^term>\<open>None\<close>.
\<close>

definition url_argument :: "JSValueConst list \<Rightarrow> string option" where
  "url_argument argv = (if 1 \<le> length argv then ToCString (argv ! 0) else None)"

definition url_data_arguments :: "JSValueConst list \<Rightarrow> string option" where
  "url_data_arguments argv =
     (if 2 \<le> length argv \<and> ToCString (argv ! 1) \<noteq> None then ToCString (argv ! 0) else None)"

definition options_url :: "JSValueConst list \<Rightarrow> string option" where
  "options_url argv =
     (if 1 \<le> length argv \<and> IsObject (argv ! 0)
      then ToCString (JS_GetPropertyStr (argv ! 0) ''url'') else None)"

text \<open>
  The verbs whose response value has a \<open>data\<close> property, all but \<open>httpHead\<close>, and all the
  verbs; each with the arguments that it accepts.
\<close>

definition data_verbs :: "(verb \<times> (JSValueConst list \<Rightarrow> string option)) list" where
  "data_verbs =
     [(js_http_get, url_argument), (js_http_post, url_data_arguments),
      (js_http_put, url_data_arguments), (js_http_delete, url_argument),
      (js_http_request, options_url), (js_http_get_async, url_argument),
      (js_http_post_async, url_data_arguments)]"

definition all_verbs :: "(verb \<times> (JSValueConst list \<Rightarrow> string option)) list" where
  "all_verbs = (js_http_head, url_argument) # data_verbs"

text \<open>
  The answer surfaces a transport failure in full: a response value whose status is \<open>-1\<close>
  and whose data is \<open>ERROR: \<close> followed by a description.
\<close>

definition surfaces_failure :: "JSThrow + JSObject \<Rightarrow> bool" where
  "surfaces_failure r =
     (answer_status r = Some (JS_NewInt32 (- 1)) \<and>
      (\<exists>text. answer_data r = Some (JS_NewString (''ERROR: '' @ text))))"

text \<open>
  The answer of a verb is made from a run of \<^verbatim>\<open>performHttpRequest\<close>: the transfers
  carried out when the verb returns are those of the run, and the value returned holds the
  status of its response; and the value holds the body of the response as well.
\<close>

definition returns_response ::
  "transfers \<times> HttpResponse \<Rightarrow> transfers \<times> (JSThrow + JSObject) \<Rightarrow> bool" where
  "returns_response run answer =
     (fst answer = fst run \<and>
      answer_status (snd answer) = Some (JS_NewInt32 (ucast (responseCode (snd run)))))"

definition returns_data ::
  "transfers \<times> HttpResponse \<Rightarrow> transfers \<times> (JSThrow + JSObject) \<Rightarrow> bool" where
  "returns_data run answer =
     (answer_data (snd answer) = Some (JS_NewString (c_str (response_data (snd run)))))"

text \<open>The status of an answer as the number that the script reads.\<close>

definition status_number :: "JSThrow + JSObject \<Rightarrow> int option" where
  "status_number r =
     (case answer_status r of Some (JS_NewInt32 n) \<Rightarrow> Some (sint n) | _ \<Rightarrow> None)"

text \<open>
  The answer of a verb, run by the thread \<open>self\<close>, reports what the transport does with
  a request. The answer is a value, not a thrown exception, and no transfer but that of the
  request, by \<open>self\<close>, has been carried out. If the transport fails for the request, the
  status is \<open>-1\<close>. If it carries the request out with \<^verbatim>\<open>CURLE_OK\<close>, that transfer has been
  carried out, and the status is the protocol status cut to 32 bits, which for a protocol
  status from 1 to \<open>2\<^sup>3\<^sup>1 - 1\<close> is that number.
\<close>

definition reports_transfer ::
  "thread \<Rightarrow> (HttpRequest \<Rightarrow> curl_transfer) \<Rightarrow> HttpRequest
     \<Rightarrow> transfers \<times> (JSThrow + JSObject) \<Rightarrow> bool" where
  "reports_transfer self curl request answer =
     ((\<exists>value. snd answer = Inr value)
      \<and> set (fst answer) \<subseteq> {(self, request)}
      \<and> (transport_failed (curl request) \<longrightarrow>
            answer_status (snd answer) = Some (JS_NewInt32 (- 1)))
      \<and> (\<forall>header_lines chunks code.
            curl request = curl_easy_perform header_lines chunks CURLE_OK code \<longrightarrow>
              fst answer = [(self, request)]
              \<and> answer_status (snd answer) = Some (JS_NewInt32 (ucast code))
              \<and> (1 \<le> sint code \<and> sint code < 2 ^ 31 \<longrightarrow>
                    status_number (snd answer) = Some (sint code))))"

text \<open>
  A transport on which every transfer times out, and one on which every transfer succeeds
  with the protocol status 200 and an empty body.
\<close>

definition curl_ok :: "HttpRequest \<Rightarrow> curl_transfer" where
  "curl_ok request = curl_easy_perform [] [] CURLE_OK 200"

definition curl_timeout :: "HttpRequest \<Rightarrow> curl_transfer" where
  "curl_timeout request = curl_easy_perform [] [] (CURLE_failure ''Timeout was reached'') 0"

text \<open>
  Argument vectors that the verbs accept: a URL, a URL with a body, and an options object
  with the property \<open>url\<close>.
\<close>

definition url_argv :: "JSValueConst list" where
  "url_argv = [js_string ''https://example.org/a'']"

definition url_data_argv :: "JSValueConst list" where
  "url_data_argv = [js_string ''https://example.org/a'', js_string ''{}'']"

definition options_argv :: "JSValueConst list" where
  "options_argv =
     [JSValueConst (Some ''[object Object]'') True (Some []) None
        [(''url'', js_string ''https://example.org/a'')]]"

section \<open>Regular expressions of the C++ standard library\<close>

text \<open>
  \<^verbatim>\<open>std::regex\<close> belongs to the C++ library, not to the repository. The sources build
  every expression from a string literal with the default ECMAScript grammar, some with the
  flag \<^verbatim>\<open>icase\<close>, and use \<^verbatim>\<open>regex_search\<close>, \<^verbatim>\<open>sregex_iterator\<close> and
  \<^verbatim>\<open>regex_replace\<close>. The model covers the fragment of the grammar that these literals
  use: characters, escaped punctuation, bracket expressions of single characters and
  \<^verbatim>\<open>\s\<close>, the quantifiers \<^verbatim>\<open>*\<close>, \<^verbatim>\<open>+\<close>, \<^verbatim>\<open>?\<close> on one character or bracket
  expression, capturing groups, alternatives and the anchor \<^verbatim>\<open>$\<close>. A pattern outside
  this fragment is reported as \<open>not_modelled\<close>; no pattern of the sources is.
\<close>

subsection \<open>Characters\<close>

text \<open>\<^verbatim>\<open>tolower\<close> and \<^verbatim>\<open>isspace\<close> of the classic locale, on bytes.\<close>

definition tolower :: "char \<Rightarrow> char" where
  "tolower c =
     (case map_of (zip ''ABCDEFGHIJKLMNOPQRSTUVWXYZ'' ''abcdefghijklmnopqrstuvwxyz'') c of
        Some l \<Rightarrow> l
      | None \<Rightarrow> c)"

definition isspace :: "char \<Rightarrow> bool" where
  "isspace c = (c \<in> set [CHR '' '', CHR 0x09, CHR 0x0A, CHR 0x0B, CHR 0x0C, CHR 0x0D])"

subsection \<open>Syntax trees\<close>

datatype bracket_item = BChar char | BSpace

datatype atom = Lit char | Bracket bool "bracket_item list"

datatype quantifier = One | Optional | Star | Plus

datatype re =
    Eps
  | Atom atom quantifier
  | Eol
  | Cat re re
  | Alt re re
  | Group nat re

datatype regex_error =
    error_paren
  | error_brack
  | error_escape
  | error_badrepeat
  | not_modelled

text \<open>
  The text of \<^verbatim>\<open>regex_error::what()\<close>, as libc++ (the C++ library of the Android NDK)
  words it.
\<close>

fun what :: "regex_error \<Rightarrow> string" where
  "what error_paren = ''The expression contained mismatched ( and ).''"
| "what error_brack = ''The expression contained mismatched [ and ].''"
| "what error_escape = ''The expression contained an invalid escaped character, or a trailing escape.''"
| "what error_badrepeat = ''One of *?+{ was not preceded by a valid regular expression.''"
| "what not_modelled = ''not_modelled''"

subsection \<open>Reading a pattern\<close>

text \<open>
  The pattern is read from left to right. A frame holds, for the group being read (0 for
  the whole pattern), its number, the alternatives already closed by \<^verbatim>\<open>|\<close> and the
  terms of the current alternative, last term first.
\<close>

type_synonym frame = "nat \<times> re list \<times> re list"

datatype mode =
    Normal
  | Escape
  | BracketStart
  | InBracket bool "bracket_item list"
  | BracketEscape bool "bracket_item list"

type_synonym parser_state = "mode \<times> frame list \<times> nat"

definition sequence :: "re list \<Rightarrow> re" where
  "sequence terms = foldr Cat terms Eps"

fun close_frame :: "frame \<Rightarrow> re" where
  "close_frame (n, alternatives, current) = foldr Alt alternatives (sequence (rev current))"

fun push_term :: "re \<Rightarrow> frame list \<Rightarrow> frame list" where
  "push_term t [] = []"
| "push_term t ((n, alternatives, current) # frames) = (n, alternatives, t # current) # frames"

definition punctuation :: "char \<Rightarrow> bool" where
  "punctuation c = (c \<in> set [CHR ''^'', CHR ''$'', CHR 0x5C, CHR ''.'', CHR ''*'', CHR ''+'',
     CHR ''?'', CHR ''('', CHR '')'', CHR ''['', CHR '']'', CHR ''{'', CHR ''}'', CHR ''|'',
     CHR ''/'', CHR ''-''])"

fun quantify :: "quantifier \<Rightarrow> frame list \<Rightarrow> regex_error + frame list" where
  "quantify q ((n, alternatives, Atom a One # current) # frames) =
     Inr ((n, alternatives, Atom a q # current) # frames)"
| "quantify q ((n, alternatives, []) # frames) = Inl error_badrepeat"
| "quantify q frames = Inl not_modelled"

fun parse_normal :: "char \<Rightarrow> frame list \<Rightarrow> nat \<Rightarrow> regex_error + parser_state" where
  "parse_normal c frames k =
     (if c = CHR 0x5C then Inr (Escape, frames, k)
      else if c = CHR ''['' then Inr (BracketStart, frames, k)
      else if c = CHR ''('' then Inr (Normal, (k, [], []) # frames, Suc k)
      else if c = CHR '')'' then
        (case frames of
           inner # parent # outer \<Rightarrow>
             Inr (Normal, push_term (Group (fst inner) (close_frame inner)) (parent # outer), k)
         | _ \<Rightarrow> Inl error_paren)
      else if c = CHR ''|'' then
        (case frames of
           (n, alternatives, current) # outer \<Rightarrow>
             Inr (Normal, (n, alternatives @ [sequence (rev current)], []) # outer, k)
         | [] \<Rightarrow> Inl not_modelled)
      else if c = CHR ''*'' then map_sum id (\<lambda>f. (Normal, f, k)) (quantify Star frames)
      else if c = CHR ''+'' then map_sum id (\<lambda>f. (Normal, f, k)) (quantify Plus frames)
      else if c = CHR ''?'' then map_sum id (\<lambda>f. (Normal, f, k)) (quantify Optional frames)
      else if c = CHR ''$'' then Inr (Normal, push_term Eol frames, k)
      else if c \<in> set [CHR ''^'', CHR ''.'', CHR ''{'', CHR ''}'', CHR '']'']
        then Inl not_modelled
      else Inr (Normal, push_term (Atom (Lit c) One) frames, k))"

fun parse_bracket ::
  "char \<Rightarrow> bool \<Rightarrow> bracket_item list \<Rightarrow> frame list \<Rightarrow> nat \<Rightarrow> regex_error + parser_state" where
  "parse_bracket c negated items frames k =
     (if c = CHR '']'' then
        (if items = [] then Inl not_modelled
         else Inr (Normal, push_term (Atom (Bracket negated items) One) frames, k))
      else if c = CHR 0x5C then Inr (BracketEscape negated items, frames, k)
      else if c = CHR ''-'' \<or> c = CHR ''['' then Inl not_modelled
      else Inr (InBracket negated (items @ [BChar c]), frames, k))"

fun parse_step :: "char \<Rightarrow> parser_state \<Rightarrow> regex_error + parser_state" where
  "parse_step c (Normal, frames, k) = parse_normal c frames k"
| "parse_step c (Escape, frames, k) =
     (if c = CHR ''s'' then Inr (Normal, push_term (Atom (Bracket False [BSpace]) One) frames, k)
      else if punctuation c then Inr (Normal, push_term (Atom (Lit c) One) frames, k)
      else Inl not_modelled)"
| "parse_step c (BracketStart, frames, k) =
     (if c = CHR ''^'' then Inr (InBracket True [], frames, k)
      else parse_bracket c False [] frames k)"
| "parse_step c (InBracket negated items, frames, k) = parse_bracket c negated items frames k"
| "parse_step c (BracketEscape negated items, frames, k) =
     (if c = CHR ''s'' then Inr (InBracket negated (items @ [BSpace]), frames, k)
      else if punctuation c then Inr (InBracket negated (items @ [BChar c]), frames, k)
      else Inl not_modelled)"

fun parse_end :: "parser_state \<Rightarrow> regex_error + re" where
  "parse_end (Normal, [whole], k) = Inr (close_frame whole)"
| "parse_end (Normal, frames, k) = Inl error_paren"
| "parse_end (Escape, frames, k) = Inl error_escape"
| "parse_end (m, frames, k) = Inl error_brack"

fun parse_pattern :: "string \<Rightarrow> parser_state \<Rightarrow> regex_error + re" where
  "parse_pattern [] st = parse_end st"
| "parse_pattern (c # cs) st =
     (case parse_step c st of
        Inl e \<Rightarrow> Inl e
      | Inr st' \<Rightarrow> parse_pattern cs st')"

text \<open>
  A \<^verbatim>\<open>std::regex\<close> object: the tree and the flag \<^verbatim>\<open>icase\<close>. The constructor raises
  \<^verbatim>\<open>std::regex_error\<close> for a pattern that is not well formed.
\<close>

type_synonym regex = "re \<times> bool"

definition std_regex :: "string \<Rightarrow> bool \<Rightarrow> regex_error + regex" where
  "std_regex pattern icase =
     map_sum id (\<lambda>t. (t, icase)) (parse_pattern pattern (Normal, [(0, [], [])], 1))"

text \<open>Building a \<^verbatim>\<open>std::vector<std::regex>\<close> from its initializer list, in order.\<close>

fun regex_vector :: "(string \<times> bool) list \<Rightarrow> regex_error + regex list" where
  "regex_vector [] = Inr []"
| "regex_vector ((pattern, icase) # others) =
     (case std_regex pattern icase of
        Inl e \<Rightarrow> Inl e
      | Inr r \<Rightarrow> (case regex_vector others of Inl e \<Rightarrow> Inl e | Inr rs \<Rightarrow> Inr (r # rs)))"

subsection \<open>Matching\<close>

fun item_matches :: "bool \<Rightarrow> bracket_item \<Rightarrow> char \<Rightarrow> bool" where
  "item_matches icase (BChar c) x = (x = (if icase then tolower c else c))"
| "item_matches icase BSpace x = isspace x"

fun atom_matches :: "bool \<Rightarrow> atom \<Rightarrow> char \<Rightarrow> bool" where
  "atom_matches icase (Lit c) x = (if icase then tolower x = tolower c else x = c)"
| "atom_matches icase (Bracket negated items) x =
     ((\<exists>i \<in> set items. item_matches icase i (if icase then tolower x else x)) \<noteq> negated)"

text \<open>
  A way of matching at the start of a text: the part matched, the rest of the text, and the
  groups captured. \<open>ways\<close> lists all of them in the order in which the backtracking
  matcher of the ECMAScript grammar tries them: the terms of a sequence from left to right,
  the alternatives from left to right, a quantifier from the most repetitions down.
\<close>

type_synonym way = "string \<times> string \<times> (nat \<times> string) list"

definition repetitions :: "bool \<Rightarrow> atom \<Rightarrow> string \<Rightarrow> nat" where
  "repetitions icase a s = length (takeWhile (atom_matches icase a) s)"

fun ways :: "bool \<Rightarrow> re \<Rightarrow> string \<Rightarrow> way list" where
  "ways icase Eps s = [([], s, [])]"
| "ways icase (Atom a One) s =
     (case s of
        [] \<Rightarrow> []
      | x # xs \<Rightarrow> if atom_matches icase a x then [([x], xs, [])] else [])"
| "ways icase (Atom a Optional) s =
     (case s of
        [] \<Rightarrow> [([], s, [])]
      | x # xs \<Rightarrow> if atom_matches icase a x then [([x], xs, []), ([], s, [])] else [([], s, [])])"
| "ways icase (Atom a Star) s =
     map (\<lambda>n. (take n s, drop n s, [])) (rev [0 ..< Suc (repetitions icase a s)])"
| "ways icase (Atom a Plus) s =
     map (\<lambda>n. (take n s, drop n s, [])) (rev [1 ..< Suc (repetitions icase a s)])"
| "ways icase Eol s = (if s = [] then [([], s, [])] else [])"
| "ways icase (Cat r1 r2) s =
     concat (map (\<lambda>(m1, s1, g1).
                map (\<lambda>(m2, s2, g2). (m1 @ m2, s2, g1 @ g2)) (ways icase r2 s1))
             (ways icase r1 s))"
| "ways icase (Alt r1 r2) s = ways icase r1 s @ ways icase r2 s"
| "ways icase (Group n r) s = map (\<lambda>(m, s', g). (m, s', (n, m) # g)) (ways icase r s)"

text \<open>
  A \<^verbatim>\<open>std::smatch\<close> that is not empty: \<^verbatim>\<open>prefix()\<close>, \<^verbatim>\<open>match[0]\<close>, \<^verbatim>\<open>suffix()\<close> and
  the captured groups. \<^verbatim>\<open>match[n].str()\<close> is empty for a group that took no part.
\<close>

type_synonym smatch = "string \<times> string \<times> string \<times> (nat \<times> string) list"

fun match_str :: "smatch \<Rightarrow> nat \<Rightarrow> string" where
  "match_str (before, m, after, groups) n =
     (if n = 0 then m else case map_of groups n of Some g \<Rightarrow> g | None \<Rightarrow> [])"

fun match_suffix :: "smatch \<Rightarrow> string" where
  "match_suffix (before, m, after, groups) = after"

fun match_prefix :: "smatch \<Rightarrow> string" where
  "match_prefix (before, m, after, groups) = before"

text \<open>
  \<^verbatim>\<open>regex_search\<close>: the first way of matching at the leftmost position that has one.
  \<open>search_from\<close> carries the text already passed over. The end of the text is tried as
  a position too; a pattern that needs at least one character, as every pattern of the
  sources does, cannot match there.
\<close>

fun search_from :: "regex \<Rightarrow> string \<Rightarrow> string \<Rightarrow> smatch option" where
  "search_from (r, icase) passed s =
     (case ways icase r s of
        (m, after, groups) # others \<Rightarrow> Some (passed, m, after, groups)
      | [] \<Rightarrow> (case s of
                 [] \<Rightarrow> None
               | x # xs \<Rightarrow> search_from (r, icase) (passed @ [x]) xs))"

definition regex_search :: "string \<Rightarrow> regex \<Rightarrow> smatch option" where
  "regex_search s rx = search_from rx [] s"

lemma ways_split:
  "(m, after, groups) \<in> set (ways icase r s) \<Longrightarrow> s = m @ after"
proof (induction r arbitrary: s m after groups)
  case (Atom a q)
  then show ?case
    by (cases q; cases s) (auto split: if_splits)
next
  case (Cat r1 r2)
  then show ?case by fastforce
qed (auto split: if_splits)

lemma search_from_split:
  "search_from rx passed s = Some (before, m, after, groups) \<Longrightarrow>
     passed @ s = before @ m @ after"
proof (induction s arbitrary: passed)
  case Nil
  obtain r icase where rx: "rx = (r, icase)" by (cases rx)
  from Nil show ?case
    unfolding rx using ways_split [of m after groups icase r "[]"]
    by (auto split: list.splits)
next
  case (Cons x xs)
  obtain r icase where rx: "rx = (r, icase)" by (cases rx)
  show ?case
  proof (cases "ways icase r (x # xs)")
    case Nil
    with Cons.prems have "search_from rx (passed @ [x]) xs = Some (before, m, after, groups)"
      by (simp add: rx)
    from Cons.IH [OF this] show ?thesis by simp
  next
    case (Cons w ws)
    with Cons.prems have w: "w = (m, after, groups)" and "passed = before"
      by (auto simp: rx split: prod.splits)
    with Cons ways_split [of m after groups icase r "x # xs"] show ?thesis
      by simp
  qed
qed

lemma regex_search_split:
  "regex_search s rx = Some (before, m, after, groups) \<Longrightarrow> s = before @ m @ after"
  using search_from_split [of rx "[]" s] by (simp add: regex_search_def)

lemma regex_search_after_le:
  "regex_search s rx = Some (before, m, after, groups) \<Longrightarrow> length after \<le> length s"
  using regex_search_split [of s rx before m after groups] by simp

lemma regex_search_after_less:
  "regex_search s rx = Some (before, m, after, groups) \<Longrightarrow> m \<noteq> [] \<Longrightarrow>
     length after < length s"
  using regex_search_split [of s rx before m after groups] by simp

lemma find_SomeD:
  "find P xs = Some x \<Longrightarrow> P x \<and> x \<in> set xs"
  by (induction xs) (auto split: if_splits)

lemma find_way_after_less:
  assumes "find (\<lambda>w. fst w \<noteq> []) (ways icase r s) = Some (m, after, groups)"
  shows "length after < length s"
proof -
  from find_SomeD [OF assms]
  have "(m, after, groups) \<in> set (ways icase r s)" and "m \<noteq> []"
    by simp_all
  then show ?thesis
    using ways_split [of m after groups icase r s] by simp
qed

text \<open>
  \<^verbatim>\<open>sregex_iterator\<close>: the successive matches. After a match that is not empty the next
  search starts where the match ended. After an empty match the iterator stops at the end
  of the text; otherwise it first looks for a match that is not empty at the same position
  and then moves on by one character. The prefix of each match is the text since the end of
  the match before.
\<close>

function regex_iterate :: "regex \<Rightarrow> string \<Rightarrow> smatch list" where
  "regex_iterate rx s =
     (case regex_search s rx of
        None \<Rightarrow> []
      | Some (before, m, after, groups) \<Rightarrow>
          (before, m, after, groups) #
          (if m \<noteq> [] then regex_iterate rx after
           else case after of
                  [] \<Rightarrow> []
                | x # xs \<Rightarrow>
                   (case find (\<lambda>w. fst w \<noteq> []) (ways (snd rx) (fst rx) after) of
                      Some (m', after', groups') \<Rightarrow>
                        ([], m', after', groups') # regex_iterate rx after'
                    | None \<Rightarrow>
                       (case regex_iterate rx xs of
                          [] \<Rightarrow> []
                        | (before', found) # later \<Rightarrow> (x # before', found) # later))))"
  by pat_completeness auto
termination
proof (relation "measure (\<lambda>(rx, s). length s)", goal_cases)
  case 1
  show ?case by simp
next
  case 2
  then show ?case
    by (auto dest: regex_search_after_less)
next
  case 3
  then show ?case
    by (auto dest: regex_search_after_le)
next
  case 4
  then show ?case
    by (auto dest!: regex_search_after_le find_way_after_less)
qed

declare regex_iterate.simps [simp del]

text \<open>
  \<^verbatim>\<open>regex_replace\<close> with a replacement text that has no \<^verbatim>\<open>$\<close> in it: the prefix of
  every match, each followed by the replacement, and the suffix of the last match.
\<close>

definition regex_replace :: "string \<Rightarrow> regex \<Rightarrow> string \<Rightarrow> string" where
  "regex_replace s rx fmt =
     (case regex_iterate rx s of
        [] \<Rightarrow> s
      | found \<Rightarrow> concat (map (\<lambda>mt. match_prefix mt @ fmt) found) @ match_suffix (last found))"

section \<open>The pattern-based extraction engine (spider-bridge.cpp)\<close>

text \<open>
  The three characters that cannot stand in a string literal of the logic as they are:
  the double quote, the single quote and the backslash.
\<close>

abbreviation (input) dq :: char where "dq \<equiv> CHR 0x22"
abbreviation (input) sq :: char where "sq \<equiv> CHR 0x27"
abbreviation (input) bs :: char where "bs \<equiv> CHR 0x5C"

subsection \<open>The pattern literals\<close>

text \<open>
  Each pattern is the content of a raw string literal \<^verbatim>\<open>R"(...)"\<close> of the source, which
  ends at the first \<^verbatim>\<open>)"\<close>; the flag says whether \<^verbatim>\<open>icase\<close> is passed.
\<close>

text \<open>
  The patterns of \<^verbatim>\<open>extractPlayUrls\<close>:

  \<^verbatim>\<open>std::regex(R"((https?://[^"'\s]+\.m3u8[^"'\s]*))")\<close>

  \<^verbatim>\<open>std::regex(R"((https?://[^"'\s]+\.mp4[^"'\s]*))")\<close>

  \<^verbatim>\<open>std::regex(R"((https?://[^"'\s]+\.flv[^"'\s]*))")\<close>

  \<^verbatim>\<open>std::regex(R"((https?://[^"'\s]+\.avi[^"'\s]*))")\<close>

  \<^verbatim>\<open>std::regex(R"((https?://[^"'\s]+\.mkv[^"'\s]*))")\<close>

  \<^verbatim>\<open>std::regex(R"(src=["']([^"']+\.m3u8[^"']*))")\<close>

  \<^verbatim>\<open>std::regex(R"(src=["']([^"']+\.mp4[^"']*))")\<close>

  \<^verbatim>\<open>std::regex(R"(url["\s]*[:=]["\s]*["']([^"']+\.m3u8[^"']*))")\<close>

  \<^verbatim>\<open>std::regex(R"(url["\s]*[:=]["\s]*["']([^"']+\.mp4[^"']*))")\<close>
\<close>

definition playUrl_patterns :: "(string \<times> bool) list" where
  "playUrl_patterns =
     [(''(https?://[^'' @ [dq, sq, bs] @ ''s]+'' @ [bs] @ ''.m3u8[^'' @ [dq, sq, bs] @ ''s]*)'', False),
      (''(https?://[^'' @ [dq, sq, bs] @ ''s]+'' @ [bs] @ ''.mp4[^'' @ [dq, sq, bs] @ ''s]*)'', False),
      (''(https?://[^'' @ [dq, sq, bs] @ ''s]+'' @ [bs] @ ''.flv[^'' @ [dq, sq, bs] @ ''s]*)'', False),
      (''(https?://[^'' @ [dq, sq, bs] @ ''s]+'' @ [bs] @ ''.avi[^'' @ [dq, sq, bs] @ ''s]*)'', False),
      (''(https?://[^'' @ [dq, sq, bs] @ ''s]+'' @ [bs] @ ''.mkv[^'' @ [dq, sq, bs] @ ''s]*)'', False),
      (''src=['' @ [dq, sq] @ '']([^'' @ [dq, sq] @ '']+'' @ [bs] @ ''.m3u8[^'' @ [dq, sq] @ '']*)'', False),
      (''src=['' @ [dq, sq] @ '']([^'' @ [dq, sq] @ '']+'' @ [bs] @ ''.mp4[^'' @ [dq, sq] @ '']*)'', False),
      (''url['' @ [dq, bs] @ ''s]*[:=]['' @ [dq, bs] @ ''s]*['' @ [dq, sq] @ '']([^'' @ [dq, sq] @ '']+'' @ [bs] @ ''.m3u8[^'' @ [dq, sq] @ '']*)'', False),
      (''url['' @ [dq, bs] @ ''s]*[:=]['' @ [dq, bs] @ ''s]*['' @ [dq, sq] @ '']([^'' @ [dq, sq] @ '']+'' @ [bs] @ ''.mp4[^'' @ [dq, sq] @ '']*)'', False)]"

text \<open>
  The patterns of \<^verbatim>\<open>extractTitle\<close>:

  \<^verbatim>\<open>std::regex(R"(<title[^>]*>([^<]+)</title>)", std::regex_constants::icase)\<close>

  \<^verbatim>\<open>std::regex(R"(<h1[^>]*>([^<]+)</h1>)", std::regex_constants::icase)\<close>

  \<^verbatim>\<open>std::regex(R"(<h2[^>]*>([^<]+)</h2>)", std::regex_constants::icase)\<close>

  \<^verbatim>\<open>std::regex(R"(title["\s]*[:=]["\s]*["']([^"']+))", std::regex_constants::icase)\<close>

  \<^verbatim>\<open>std::regex(R"(name["\s]*[:=]["\s]*["']([^"']+))", std::regex_constants::icase)\<close>
\<close>

definition title_patterns :: "(string \<times> bool) list" where
  "title_patterns =
     [(''<title[^>]*>([^<]+)</title>'', True),
      (''<h1[^>]*>([^<]+)</h1>'', True),
      (''<h2[^>]*>([^<]+)</h2>'', True),
      (''title['' @ [dq, bs] @ ''s]*[:=]['' @ [dq, bs] @ ''s]*['' @ [dq, sq] @ '']([^'' @ [dq, sq] @ '']+)'', True),
      (''name['' @ [dq, bs] @ ''s]*[:=]['' @ [dq, bs] @ ''s]*['' @ [dq, sq] @ '']([^'' @ [dq, sq] @ '']+)'', True)]"

text \<open>
  The patterns of \<^verbatim>\<open>extractThumbnail\<close>:

  \<^verbatim>\<open>std::regex(R"(<img[^>]+src=["']([^"']+))", std::regex_constants::icase)\<close>

  \<^verbatim>\<open>std::regex(R"(poster=["']([^"']+))", std::regex_constants::icase)\<close>

  \<^verbatim>\<open>std::regex(R"(thumbnail["\s]*[:=]["\s]*["']([^"']+))", std::regex_constants::icase)\<close>

  \<^verbatim>\<open>std::regex(R"(cover["\s]*[:=]["\s]*["']([^"']+))", std::regex_constants::icase)\<close>
\<close>

definition thumbnail_patterns :: "(string \<times> bool) list" where
  "thumbnail_patterns =
     [(''<img[^>]+src=['' @ [dq, sq] @ '']([^'' @ [dq, sq] @ '']+)'', True),
      (''poster=['' @ [dq, sq] @ '']([^'' @ [dq, sq] @ '']+)'', True),
      (''thumbnail['' @ [dq, bs] @ ''s]*[:=]['' @ [dq, bs] @ ''s]*['' @ [dq, sq] @ '']([^'' @ [dq, sq] @ '']+)'', True),
      (''cover['' @ [dq, bs] @ ''s]*[:=]['' @ [dq, bs] @ ''s]*['' @ [dq, sq] @ '']([^'' @ [dq, sq] @ '']+)'', True)]"

text \<open>
  The patterns of \<^verbatim>\<open>extractMetadata\<close>:

  \<^verbatim>\<open>{"duration", std::regex(R"(duration["\s]*[:=]["\s]*["']?([^"',\s]+))", std::regex_constants::icase)}\<close>

  \<^verbatim>\<open>{"quality", std::regex(R"(quality["\s]*[:=]["\s]*["']?([^"',\s]+))", std::regex_constants::icase)}\<close>

  \<^verbatim>\<open>{"format", std::regex(R"(format["\s]*[:=]["\s]*["']?([^"',\s]+))", std::regex_constants::icase)}\<close>

  \<^verbatim>\<open>{"size", std::regex(R"(size["\s]*[:=]["\s]*["']?([^"',\s]+))", std::regex_constants::icase)}\<close>

  \<^verbatim>\<open>{"bitrate", std::regex(R"(bitrate["\s]*[:=]["\s]*["']?([^"',\s]+))", std::regex_constants::icase)}\<close>

  \<^verbatim>\<open>{"fps", std::regex(R"(fps["\s]*[:=]["\s]*["']?([^"',\s]+))", std::regex_constants::icase)}\<close>
\<close>

definition metadata_patterns :: "(string \<times> string \<times> bool) list" where
  "metadata_patterns =
     [(''duration'', ''duration['' @ [dq, bs] @ ''s]*[:=]['' @ [dq, bs] @ ''s]*['' @ [dq, sq] @ '']?([^'' @ [dq, sq] @ '','' @ [bs] @ ''s]+)'', True),
      (''quality'', ''quality['' @ [dq, bs] @ ''s]*[:=]['' @ [dq, bs] @ ''s]*['' @ [dq, sq] @ '']?([^'' @ [dq, sq] @ '','' @ [bs] @ ''s]+)'', True),
      (''format'', ''format['' @ [dq, bs] @ ''s]*[:=]['' @ [dq, bs] @ ''s]*['' @ [dq, sq] @ '']?([^'' @ [dq, sq] @ '','' @ [bs] @ ''s]+)'', True),
      (''size'', ''size['' @ [dq, bs] @ ''s]*[:=]['' @ [dq, bs] @ ''s]*['' @ [dq, sq] @ '']?([^'' @ [dq, sq] @ '','' @ [bs] @ ''s]+)'', True),
      (''bitrate'', ''bitrate['' @ [dq, bs] @ ''s]*[:=]['' @ [dq, bs] @ ''s]*['' @ [dq, sq] @ '']?([^'' @ [dq, sq] @ '','' @ [bs] @ ''s]+)'', True),
      (''fps'', ''fps['' @ [dq, bs] @ ''s]*[:=]['' @ [dq, bs] @ ''s]*['' @ [dq, sq] @ '']?([^'' @ [dq, sq] @ '','' @ [bs] @ ''s]+)'', True)]"

text \<open>
  The patterns of \<^verbatim>\<open>extractDownloadUrls\<close>:

  \<^verbatim>\<open>std::regex(R"(download["\s]*[:=]["\s]*["']([^"']+))", std::regex_constants::icase)\<close>

  \<^verbatim>\<open>std::regex(R"(href=["']([^"']+\.mp4[^"']*)", std::regex_constants::icase)\<close>

  \<^verbatim>\<open>std::regex(R"(href=["']([^"']+\.avi[^"']*)", std::regex_constants::icase)\<close>

  \<^verbatim>\<open>std::regex(R"(href=["']([^"']+\.mkv[^"']*)", std::regex_constants::icase)\<close>

  The literals of the three \<^verbatim>\<open>href\<close> patterns end right after \<^verbatim>\<open>*\<close>: their only closing
  parenthesis is the one that ends the raw string literal, so the group opened in the
  pattern is never closed.
\<close>

definition download_patterns :: "(string \<times> bool) list" where
  "download_patterns =
     [(''download['' @ [dq, bs] @ ''s]*[:=]['' @ [dq, bs] @ ''s]*['' @ [dq, sq] @ '']([^'' @ [dq, sq] @ '']+)'', True),
      (''href=['' @ [dq, sq] @ '']([^'' @ [dq, sq] @ '']+'' @ [bs] @ ''.mp4[^'' @ [dq, sq] @ '']*'', True),
      (''href=['' @ [dq, sq] @ '']([^'' @ [dq, sq] @ '']+'' @ [bs] @ ''.avi[^'' @ [dq, sq] @ '']*'', True),
      (''href=['' @ [dq, sq] @ '']([^'' @ [dq, sq] @ '']+'' @ [bs] @ ''.mkv[^'' @ [dq, sq] @ '']*'', True)]"
subsection \<open>The private helpers of \<^verbatim>\<open>SimpleSpiderEngine\<close>\<close>

text \<open>
  \<^verbatim>\<open>s.find_first_not_of(chars)\<close> and \<^verbatim>\<open>s.find_last_not_of(chars)\<close>.
\<close>

fun find_first_not_of :: "string \<Rightarrow> string \<Rightarrow> nat option" where
  "find_first_not_of [] chars = None"
| "find_first_not_of (c # cs) chars =
     (if c \<notin> set chars then Some 0 else map_option Suc (find_first_not_of cs chars))"

fun find_last_not_of :: "string \<Rightarrow> string \<Rightarrow> nat option" where
  "find_last_not_of [] chars = None"
| "find_last_not_of (c # cs) chars =
     (case find_last_not_of cs chars of
        Some i \<Rightarrow> Some (Suc i)
      | None \<Rightarrow> (if c \<notin> set chars then Some 0 else None))"

text \<open>
  \<^verbatim>\<open>stripHtmlTags\<close>: every match of \<^verbatim>\<open><[^>]*>\<close> is replaced by the empty string.
\<close>

definition stripHtmlTags :: "string \<Rightarrow> regex_error + string" where
  "stripHtmlTags html =
     (case std_regex ''<[^>]*>'' False of
        Inl e \<Rightarrow> Inl e
      | Inr tagRegex \<Rightarrow> Inr (regex_replace html tagRegex []))"

text \<open>
  \<^verbatim>\<open>trim\<close>. When \<open>start\<close> is found, \<open>end\<close> is found as well; were it not,
  \<^verbatim>\<open>end - start + 1\<close> would be \<^verbatim>\<open>npos - start + 1\<close> in unsigned arithmetic, which is
  0 for \<open>start = 0\<close> and otherwise exceeds the length.
\<close>

definition trim :: "string \<Rightarrow> string" where
  "trim str =
     (case find_first_not_of str [CHR '' '', CHR 0x09, CHR 0x0D, CHR 0x0A] of
        None \<Rightarrow> []
      | Some start \<Rightarrow>
          (case find_last_not_of str [CHR '' '', CHR 0x09, CHR 0x0D, CHR 0x0A] of
             Some end' \<Rightarrow> substr str start (end' - start + 1)
           | None \<Rightarrow> (if start = 0 then [] else drop start str)))"

text \<open>
  \<^verbatim>\<open>isImageUrl\<close>, with the pattern

  \<^verbatim>\<open>R"(\.(jpg|jpeg|png|gif|bmp|webp)(\?|$))", std::regex_constants::icase\<close>
\<close>

definition isImageUrl :: "string \<Rightarrow> regex_error + bool" where
  "isImageUrl url =
     (case std_regex ([bs] @ ''.(jpg|jpeg|png|gif|bmp|webp)('' @ [bs] @ ''?|$)'') True of
        Inl e \<Rightarrow> Inl e
      | Inr imageRegex \<Rightarrow> Inr (regex_search url imageRegex \<noteq> None))"

text \<open>
  \<^verbatim>\<open>makeAbsoluteUrl\<close>, with the pattern \<^verbatim>\<open>R"(https?://[^/]+)"\<close> for the domain. The
  first argument is the member \<^verbatim>\<open>baseUrl\<close>.
\<close>

definition relative_to :: "string \<Rightarrow> string \<Rightarrow> string" where
  "relative_to baseUrl url =
     (case find_last_of baseUrl CHR ''/'' of
        Some lastSlash \<Rightarrow> substr baseUrl 0 (lastSlash + 1) @ url
      | None \<Rightarrow> url)"

definition makeAbsoluteUrl :: "string \<Rightarrow> string \<Rightarrow> regex_error + string" where
  "makeAbsoluteUrl baseUrl url =
     (if string_find url ''http'' = Some 0 then Inr url
      else if string_find url ''//'' = Some 0 then Inr (''https:'' @ url)
      else if string_find url ''/'' = Some 0 then
        (case std_regex ''https?://[^/]+'' False of
           Inl e \<Rightarrow> Inl e
         | Inr domainRegex \<Rightarrow>
             (case regex_search baseUrl domainRegex of
                Some match \<Rightarrow> Inr (match_str match 0 @ url)
              | None \<Rightarrow> Inr (relative_to baseUrl url)))
      else Inr (relative_to baseUrl url))"

subsection \<open>The extractors\<close>

text \<open>
  An extractor answers \<^term>\<open>Inl e\<close> when it raises \<^verbatim>\<open>std::regex_error\<close>, which happens
  while it builds its patterns, before it looks at the text.
\<close>

text \<open>
  \<^verbatim>\<open>extractPlayUrls\<close>. The inner loop, over the matches of one pattern, appends the text
  of group 1 unless it is in the list already.
\<close>

fun add_play_urls :: "smatch list \<Rightarrow> string list \<Rightarrow> string list" where
  "add_play_urls [] urls = urls"
| "add_play_urls (match # matches) urls =
     (let url = match_str match 1
      in if url \<in> set urls then add_play_urls matches urls
         else add_play_urls matches (urls @ [url]))"

fun play_url_loop :: "regex list \<Rightarrow> string \<Rightarrow> string list \<Rightarrow> string list" where
  "play_url_loop [] html urls = urls"
| "play_url_loop (pattern # patterns) html urls =
     play_url_loop patterns html (add_play_urls (regex_iterate pattern html) urls)"

definition extractPlayUrls :: "string \<Rightarrow> regex_error + string list" where
  "extractPlayUrls html =
     (case regex_vector playUrl_patterns of
        Inl e \<Rightarrow> Inl e
      | Inr patterns \<Rightarrow> Inr (play_url_loop patterns html []))"

text \<open>
  \<^verbatim>\<open>extractTitle\<close>. The default is the UTF-8 text of the source's literal (four Chinese
  characters that mean ``unknown title''), twelve bytes.
\<close>

definition unknown_title :: string where
  "unknown_title =
     [CHR 0xE6, CHR 0x9C, CHR 0xAA, CHR 0xE7, CHR 0x9F, CHR 0xA5,
      CHR 0xE6, CHR 0xA0, CHR 0x87, CHR 0xE9, CHR 0xA2, CHR 0x98]"

fun title_loop :: "regex list \<Rightarrow> string \<Rightarrow> regex_error + string" where
  "title_loop [] html = Inr unknown_title"
| "title_loop (pattern # patterns) html =
     (case regex_search html pattern of
        None \<Rightarrow> title_loop patterns html
      | Some match \<Rightarrow>
          (case stripHtmlTags (match_str match 1) of
             Inl e \<Rightarrow> Inl e
           | Inr stripped \<Rightarrow>
               let title = trim stripped
               in if title \<noteq> [] \<and> length title > 2 then Inr title
                  else title_loop patterns html))"

definition extractTitle :: "string \<Rightarrow> regex_error + string" where
  "extractTitle html =
     (case regex_vector title_patterns of
        Inl e \<Rightarrow> Inl e
      | Inr patterns \<Rightarrow> title_loop patterns html)"

text \<open>\<^verbatim>\<open>extractThumbnail\<close>.\<close>

fun thumbnail_loop :: "regex list \<Rightarrow> string \<Rightarrow> string \<Rightarrow> regex_error + string" where
  "thumbnail_loop [] baseUrl html = Inr []"
| "thumbnail_loop (pattern # patterns) baseUrl html =
     (case regex_search html pattern of
        None \<Rightarrow> thumbnail_loop patterns baseUrl html
      | Some match \<Rightarrow>
          let thumbnail = match_str match 1
          in (case isImageUrl thumbnail of
                Inl e \<Rightarrow> Inl e
              | Inr is_image \<Rightarrow>
                  if is_image then makeAbsoluteUrl baseUrl thumbnail
                  else thumbnail_loop patterns baseUrl html))"

definition extractThumbnail :: "string \<Rightarrow> string \<Rightarrow> regex_error + string" where
  "extractThumbnail baseUrl html =
     (case regex_vector thumbnail_patterns of
        Inl e \<Rightarrow> Inl e
      | Inr patterns \<Rightarrow> thumbnail_loop patterns baseUrl html)"

text \<open>\<^verbatim>\<open>extractMetadata\<close>; the \<^verbatim>\<open>std::map\<close> is a partial function.\<close>

fun metadata_loop ::
  "(string \<times> regex) list \<Rightarrow> string \<Rightarrow> (string \<rightharpoonup> string) \<Rightarrow> (string \<rightharpoonup> string)" where
  "metadata_loop [] html metadata = metadata"
| "metadata_loop ((key, pattern) # patterns) html metadata =
     (case regex_search html pattern of
        Some match \<Rightarrow> metadata_loop patterns html (metadata(key \<mapsto> match_str match 1))
      | None \<Rightarrow> metadata_loop patterns html metadata)"

definition extractMetadata :: "string \<Rightarrow> regex_error + (string \<rightharpoonup> string)" where
  "extractMetadata html =
     (case regex_vector (map snd metadata_patterns) of
        Inl e \<Rightarrow> Inl e
      | Inr patterns \<Rightarrow>
          Inr (metadata_loop (zip (map fst metadata_patterns) patterns) html Map.empty))"

text \<open>
  \<^verbatim>\<open>extractDownloadUrls\<close>. The inner loop looks the captured text up in the list and
  appends what \<^verbatim>\<open>makeAbsoluteUrl\<close> makes of it.
\<close>

fun add_download_urls ::
  "string \<Rightarrow> smatch list \<Rightarrow> string list \<Rightarrow> regex_error + string list" where
  "add_download_urls baseUrl [] urls = Inr urls"
| "add_download_urls baseUrl (match # matches) urls =
     (let url = match_str match 1
      in if url \<in> set urls then add_download_urls baseUrl matches urls
         else (case makeAbsoluteUrl baseUrl url of
                 Inl e \<Rightarrow> Inl e
               | Inr absolute \<Rightarrow> add_download_urls baseUrl matches (urls @ [absolute])))"

fun download_url_loop ::
  "string \<Rightarrow> regex list \<Rightarrow> string \<Rightarrow> string list \<Rightarrow> regex_error + string list" where
  "download_url_loop baseUrl [] html urls = Inr urls"
| "download_url_loop baseUrl (pattern # patterns) html urls =
     (case add_download_urls baseUrl (regex_iterate pattern html) urls of
        Inl e \<Rightarrow> Inl e
      | Inr urls' \<Rightarrow> download_url_loop baseUrl patterns html urls')"

definition extractDownloadUrls :: "string \<Rightarrow> string \<Rightarrow> regex_error + string list" where
  "extractDownloadUrls baseUrl html =
     (case regex_vector download_patterns of
        Inl e \<Rightarrow> Inl e
      | Inr patterns \<Rightarrow> download_url_loop baseUrl patterns html [])"

subsection \<open>The entry points\<close>

record SpiderResult =
  url :: string
  title :: string
  content :: string
  thumbnail :: string
  metadata :: "string \<rightharpoonup> string"
  playUrls :: "string list"
  downloadUrls :: "string list"
  parseTime :: long
  error :: string

text \<open>
  The result built in the \<^verbatim>\<open>catch\<close> clause of \<^verbatim>\<open>nativeParse\<close>: a default-constructed
  \<^verbatim>\<open>SpiderResult\<close> with \<^verbatim>\<open>url\<close>, \<^verbatim>\<open>error\<close> and \<^verbatim>\<open>parseTime\<close> assigned. The clause
  assigns \<^verbatim>\<open>errorResult.url = urlStr\<close> after \<^verbatim>\<open>ReleaseStringUTFChars(url, urlStr)\<close>, so the
  characters are read from a buffer that has been released. What that read yields is the
  argument \<open>released\<close>; it need not be the address that was passed in.
\<close>

definition errorResult :: "long \<Rightarrow> string \<Rightarrow> regex_error \<Rightarrow> SpiderResult" where
  "errorResult duration released e =
     \<lparr>url = released, title = [], content = [], thumbnail = [], metadata = Map.empty,
      playUrls = [], downloadUrls = [], parseTime = duration, error = what e\<rparr>"

text \<open>
  \<^verbatim>\<open>nativeParse\<close>, up to the \<^verbatim>\<open>SpiderResult\<close> that it hands to
  \<^verbatim>\<open>spiderResultToJson\<close>. The first argument is the elapsed time read from the clock, the
  second what the \<^verbatim>\<open>catch\<close> clause reads from the released buffer. The extractors are
  called in the order of the source; the first one that raises sends control to the
  \<^verbatim>\<open>catch\<close> clause.
\<close>

definition nativeParse :: "long \<Rightarrow> string \<Rightarrow> string \<Rightarrow> string \<Rightarrow> SpiderResult" where
  "nativeParse duration released urlStr htmlStr =
     (case extractTitle htmlStr of
        Inl e \<Rightarrow> errorResult duration released e
      | Inr title' \<Rightarrow>
     (case extractThumbnail urlStr htmlStr of
        Inl e \<Rightarrow> errorResult duration released e
      | Inr thumbnail' \<Rightarrow>
     (case extractPlayUrls htmlStr of
        Inl e \<Rightarrow> errorResult duration released e
      | Inr playUrls' \<Rightarrow>
     (case extractDownloadUrls urlStr htmlStr of
        Inl e \<Rightarrow> errorResult duration released e
      | Inr downloadUrls' \<Rightarrow>
     (case extractMetadata htmlStr of
        Inl e \<Rightarrow> errorResult duration released e
      | Inr metadata' \<Rightarrow>
          \<lparr>url = urlStr, title = title', content = htmlStr, thumbnail = thumbnail',
           metadata = metadata', playUrls = playUrls', downloadUrls = downloadUrls',
           parseTime = duration, error = []\<rparr>)))))"

text \<open>
  \<^verbatim>\<open>nativeExtractPlayUrls\<close>: the play addresses as the text of a JSON array, \<^verbatim>\<open>[]\<close> when
  the extraction raises.
\<close>

fun json_strings :: "string list \<Rightarrow> string" where
  "json_strings [] = []"
| "json_strings [s] = [dq] @ s @ [dq]"
| "json_strings (s # others) = [dq] @ s @ [dq] @ '','' @ json_strings others"

definition nativeExtractPlayUrls :: "string \<Rightarrow> string \<Rightarrow> string" where
  "nativeExtractPlayUrls urlStr htmlStr =
     (case extractPlayUrls htmlStr of
        Inl e \<Rightarrow> ''[]''
      | Inr playUrls' \<Rightarrow> ''['' @ json_strings playUrls' @ '']'')"

text \<open>The page of the scenario in the specification.\<close>

definition demo_html :: string where
  "demo_html =
     ''<title>Demo</title><video src='' @ [dq] @ ''https://cdn.test/v.m3u8'' @ [dq]
       @ ''></video>''"

subsection \<open>Notions used to state the properties\<close>

text \<open>An absolute URL begins with \<open>http://\<close> or \<open>https://\<close>.\<close>

definition absolute :: "string \<Rightarrow> bool" where
  "absolute u = (prefix ''http://'' u \<or> prefix ''https://'' u)"

text \<open>
  A list with every repeated value removed, each value staying at the place of its first
  occurrence.
\<close>

definition first_occurrences :: "'a list \<Rightarrow> 'a list" where
  "first_occurrences xs = rev (remdups (rev xs))"

text \<open>The texts that group 1 captures over the successive matches of one pattern.\<close>

definition captures :: "regex \<Rightarrow> string \<Rightarrow> string list" where
  "captures pattern html = map (\<lambda>match. match_str match 1) (regex_iterate pattern html)"

text \<open>
  The trees of the patterns of \<^verbatim>\<open>extractPlayUrls\<close> and of the domain pattern of
  \<^verbatim>\<open>makeAbsoluteUrl\<close>, written out: a scheme \<^verbatim>\<open>https?://\<close> followed by further terms, the
  bare address with a given extension, and the quoted address after \<^verbatim>\<open>src=\<close> or after the
  key \<^verbatim>\<open>url\<close>.
\<close>

definition literal :: "string \<Rightarrow> re list" where
  "literal w = map (\<lambda>c. Atom (Lit c) One) w"

definition scheme_then :: "re list \<Rightarrow> re" where
  "scheme_then terms =
     sequence (literal ''http'' @ [Atom (Lit CHR ''s'') Optional] @ literal ''://'' @ terms)"

definition bare_address :: "string \<Rightarrow> re" where
  "bare_address ext =
     sequence
       [Group 1
          (scheme_then
             ([Atom (Bracket True [BChar dq, BChar sq, BSpace]) Plus] @ literal (''.'' @ ext) @
              [Atom (Bracket True [BChar dq, BChar sq, BSpace]) Star]))]"

definition quoted_address :: "string \<Rightarrow> re list" where
  "quoted_address ext =
     [Atom (Bracket False [BChar dq, BChar sq]) One,
      Group 1
        (sequence
           ([Atom (Bracket True [BChar dq, BChar sq]) Plus] @ literal (''.'' @ ext) @
            [Atom (Bracket True [BChar dq, BChar sq]) Star]))]"

definition src_address :: "string \<Rightarrow> re" where
  "src_address ext = sequence (literal ''src='' @ quoted_address ext)"

definition key_address :: "string \<Rightarrow> re" where
  "key_address ext =
     sequence
       (literal ''url'' @
        [Atom (Bracket False [BChar dq, BSpace]) Star,
         Atom (Bracket False [BChar CHR '':'', BChar CHR ''='']) One,
         Atom (Bracket False [BChar dq, BSpace]) Star] @
        quoted_address ext)"

definition bare_patterns :: "regex list" where
  "bare_patterns = map (\<lambda>ext. (bare_address ext, False)) [''m3u8'', ''mp4'', ''flv'', ''avi'', ''mkv'']"

definition quoted_patterns :: "regex list" where
  "quoted_patterns =
     map (\<lambda>r. (r, False))
       [src_address ''m3u8'', src_address ''mp4'', key_address ''m3u8'', key_address ''mp4'']"


text \<open>A match without its prefix: one of the ways of matching at the place where it starts.\<close>

fun way_of :: "smatch \<Rightarrow> way" where
  "way_of (b, m, a, g) = (m, a, g)"

text \<open>
  Three small pages: a video whose \<^verbatim>\<open>src\<close> is a path, an image whose \<^verbatim>\<open>src\<close> is the file
  name \<open>http.png\<close>, and a page with an image, a bare address and a relative \<^verbatim>\<open>src\<close>.
\<close>

definition relative_video_page :: string where
  "relative_video_page = ''<video src='' @ [dq] @ ''/v/a.m3u8'' @ [dq] @ ''>''"

definition odd_image_page :: string where
  "odd_image_page = ''<img src='' @ [dq] @ ''http.png'' @ [dq] @ ''>''"

definition mixed_page :: string where
  "mixed_page =
     ''<img src='' @ [dq] @ ''/i/b.png'' @ [dq] @ ''> https://cdn.test/a.mp4 src='' @ [dq]
       @ ''c.m3u8'' @ [dq]"



section \<open>Facts about the string functions\<close>

lemma starts_with_iff_prefix: "starts_with n s = prefix n s"
  by (induction n s rule: starts_with.induct) simp_all

lemma string_find_Some_0_iff: "string_find s n = Some 0 \<longleftrightarrow> prefix n s"
  by (cases s) (auto simp: starts_with_iff_prefix)

lemma string_find_None_iff: "string_find s n = None \<longleftrightarrow> \<not> sublist n s"
proof (induction s)
  case Nil
  show ?case by simp
next
  case (Cons c cs)
  then show ?case
    by (simp add: starts_with_iff_prefix sublist_Cons_right)
qed

text \<open>
  Claim C10. The validation answers true exactly for the strings that begin with the four
  characters \<open>http\<close> and contain one of \<open>.m3u8\<close>, \<open>.mp4\<close>, \<open>.flv\<close>, \<open>.avi\<close>,
  \<open>.mkv\<close> somewhere; neither a full scheme nor a final extension is required.
\<close>

theorem validate_play_url_iff:
  "nativeValidatePlayUrl s =
     (prefix ''http'' s \<and>
      (sublist ''.m3u8'' s \<or> sublist ''.mp4'' s \<or> sublist ''.flv'' s \<or>
       sublist ''.avi'' s \<or> sublist ''.mkv'' s))"
proof -
  have begins: "(string_find s ''http'' = Some 0) = prefix ''http'' s"
    by (rule string_find_Some_0_iff)
  have found: "(string_find s ext \<noteq> None) = sublist ext s" for ext
    by (simp add: string_find_None_iff)
  show ?thesis
    unfolding nativeValidatePlayUrl_def begins found ..
qed

theorem validate_play_url_iff_witness:
  "nativeValidatePlayUrl ''httpx.mkv.txt'' \<and> \<not> nativeValidatePlayUrl ''ftp://a/v.mp4'' \<and>
   \<not> nativeValidatePlayUrl ''http://a/v.mov''"
  unfolding validate_play_url_iff by (simp add: sublist_Cons_right)

section \<open>Facts about the registry\<close>

lemma sint_jlong_succ:
  fixes x :: jlong
  assumes "sint x < 2 ^ 63 - 1"
  shows "sint (x + 1) = sint x + 1"
proof -
  have lo: "- (2 ^ 63) \<le> sint x"
    using sint_ge [of x] by simp
  have "sint (x + 1) = signed_take_bit 63 (sint x + 1)"
    by (simp add: sint_word_ariths)
  also have "\<dots> = sint x + 1"
    using lo assms by (intro signed_take_bit_int_eq_self) simp_all
  finally show ?thesis .
qed

lemma createJSContext_next:
  assumes "sint (g_next_context_id g) < 2 ^ 63 - 1"
  shows "sint (g_next_context_id g) \<le> sint (g_next_context_id (snd (createJSContext m g)))
       \<and> sint (g_next_context_id (snd (createJSContext m g))) \<le> sint (g_next_context_id g) + 1"
  using sint_jlong_succ [OF assms]
  by (simp add: createJSContext_def Let_def split: cxx.split)

lemma destroyJSContext_next [simp]:
  "g_next_context_id (destroyJSContext k g) = g_next_context_id g"
  by (simp add: destroyJSContext_def split: option.split)

lemma registry_step_next:
  assumes "sint (g_next_context_id g) < 2 ^ 63 - 1"
  shows "sint (g_next_context_id g) \<le> sint (g_next_context_id (registry_step c g))
       \<and> sint (g_next_context_id (registry_step c g)) \<le> sint (g_next_context_id g) + 1"
proof (cases c)
  case (Create m)
  then show ?thesis using createJSContext_next [OF assms] by simp
next
  case (Destroy k)
  then show ?thesis by simp
qed

text \<open>
  The counter never decreases and rises by at most one for each call, as long as it stays
  below the largest \<^verbatim>\<open>jlong\<close>.
\<close>

lemma registry_run_next:
  assumes "sint (g_next_context_id g) + int (length calls) < 2 ^ 63"
  shows "sint (g_next_context_id g) \<le> sint (g_next_context_id (registry_run calls g))
       \<and> sint (g_next_context_id (registry_run calls g))
            \<le> sint (g_next_context_id g) + int (length calls)"
  using assms
proof (induction calls arbitrary: g)
  case Nil
  show ?case by (simp add: registry_run_def)
next
  case (Cons c calls)
  have small: "sint (g_next_context_id g) < 2 ^ 63 - 1"
    using Cons.prems by simp
  note step = registry_step_next [OF small, of c]
  have "sint (g_next_context_id (registry_step c g)) + int (length calls) < 2 ^ 63"
    using step Cons.prems by simp
  from Cons.IH [OF this] step show ?case
    by (simp add: registry_run_def)
qed

lemma createJSContext_valid:
  assumes "isValid w"
  shows "createJSContext (Returns w) g =
           (g_next_context_id g,
            g\<lparr>g_contexts := (g_contexts g)(g_next_context_id g \<mapsto> w),
              g_next_context_id := g_next_context_id g + 1\<rparr>)"
  using assms by (simp add: createJSContext_def Let_def)

text \<open>
  Claim C6. In a process that starts from the initial registry and makes fewer than
  \<open>2^63\<close> registry calls: a context A created after the calls \<open>before\<close> and a context B
  created after any further calls \<open>between\<close> get positive, distinct identities with B's
  strictly greater than A's; destroying A afterwards erases A's entry only, so B is still
  registered with its valid wrapper; and a creation whose wrapper is not valid, or whose
  construction raises, reports 0 and leaves the registry as it was.
\<close>

theorem context_identity_monotone:
  assumes validA: "isValid wA" and validB: "isValid wB"
    and bound: "int (length before) + int (length between) + 2 < 2 ^ 63"
    and g: "g = registry_run before initial_registry"
    and A: "createJSContext (Returns wA) g = (a, g1)"
    and g2: "g2 = registry_run between g1"
    and B: "createJSContext (Returns wB) g2 = (b, g3)"
  shows "0 < sint a \<and> sint a < sint b \<and> a \<noteq> b
       \<and> g_contexts g3 b = Some wB
       \<and> g_contexts (destroyJSContext a g3) a = None
       \<and> g_contexts (destroyJSContext a g3) b = Some wB
       \<and> (\<forall>k. k \<noteq> a \<longrightarrow> g_contexts (destroyJSContext a g3) k = g_contexts g3 k)
       \<and> (\<forall>w h. \<not> isValid w \<longrightarrow> createJSContext (Returns w) h = (0, h))
       \<and> (\<forall>e h. createJSContext (Throws e) h = (0, h))"
proof -
  have init: "sint (g_next_context_id initial_registry) = 1"
    by (simp add: initial_registry_def)
  have "sint (g_next_context_id initial_registry) + int (length before) < 2 ^ 63"
    using bound init by simp
  from registry_run_next [OF this] init g
  have ng: "1 \<le> sint (g_next_context_id g)"
    "sint (g_next_context_id g) \<le> 1 + int (length before)"
    by simp_all
  have a: "a = g_next_context_id g"
    and g1: "g_next_context_id g1 = g_next_context_id g + 1"
    using A createJSContext_valid [OF validA, of g] by auto
  have "sint (g_next_context_id g) < 2 ^ 63 - 1"
    using ng bound by simp
  then have ng1: "sint (g_next_context_id g1) = sint (g_next_context_id g) + 1"
    using g1 sint_jlong_succ by simp
  have "sint (g_next_context_id g1) + int (length between) < 2 ^ 63"
    using ng1 ng bound by simp
  from registry_run_next [OF this] g2
  have ng2: "sint (g_next_context_id g1) \<le> sint (g_next_context_id g2)"
    by simp
  have b: "b = g_next_context_id g2"
    and g3: "g_contexts g3 = (g_contexts g2)(b \<mapsto> wB)"
    using B createJSContext_valid [OF validB, of g2] by auto
  have lt: "sint a < sint b"
    using a b ng1 ng2 by simp
  then have ne: "a \<noteq> b"
    by auto
  have destroyed: "g_contexts (destroyJSContext a g3) = (g_contexts g3)(a := None)"
    by (auto simp: destroyJSContext_def split: option.split)
  have failed: "\<forall>w h. \<not> isValid w \<longrightarrow> createJSContext (Returns w) h = (0, h)"
    by (simp add: createJSContext_def)
  have raised: "\<forall>e h. createJSContext (Throws e) h = (0, h)"
    by (simp add: createJSContext_def)
  show ?thesis
    using ng a lt ne g3 destroyed failed raised by simp
qed

theorem context_identity_monotone_witness:
  "createJSContext (Returns idle_wrapper) initial_registry
     = (1, \<lparr>g_contexts = [1 \<mapsto> idle_wrapper], g_next_context_id = 2\<rparr>)
   \<and> createJSContext (Returns idle_wrapper)
        (registry_run [Create (Throws ''std::bad_alloc''), Destroy 7]
           \<lparr>g_contexts = [1 \<mapsto> idle_wrapper], g_next_context_id = 2\<rparr>)
     = (2, \<lparr>g_contexts = [1 \<mapsto> idle_wrapper, 2 \<mapsto> idle_wrapper], g_next_context_id = 3\<rparr>)
   \<and> sint (1 :: jlong) < sint (2 :: jlong)
   \<and> g_contexts (destroyJSContext 1
         \<lparr>g_contexts = [1 \<mapsto> idle_wrapper, 2 \<mapsto> idle_wrapper], g_next_context_id = 3\<rparr>) 2
       = Some idle_wrapper
   \<and> g_contexts (destroyJSContext 1
         \<lparr>g_contexts = [1 \<mapsto> idle_wrapper, 2 \<mapsto> idle_wrapper], g_next_context_id = 3\<rparr>) 1
       = None"
proof -
  let ?g1 = "\<lparr>g_contexts = [1 \<mapsto> idle_wrapper], g_next_context_id = (2::jlong)\<rparr>"
  let ?g3 = "\<lparr>g_contexts = [1 \<mapsto> idle_wrapper, 2 \<mapsto> idle_wrapper],
               g_next_context_id = (3::jlong)\<rparr>"
  let ?between = "[Create (Throws ''std::bad_alloc''), Destroy 7]"
  have valid: "isValid idle_wrapper"
    by (simp add: idle_wrapper_def)
  have bound: "int (length ([] :: registry_call list)) + int (length ?between) + 2 < 2 ^ 63"
    by simp
  have g: "initial_registry = registry_run [] initial_registry"
    by (simp add: registry_run_def)
  have A: "createJSContext (Returns idle_wrapper) initial_registry = (1, ?g1)"
    by (simp add: createJSContext_def initial_registry_def valid)
  have run: "registry_run ?between ?g1 = ?g1"
    by (simp add: registry_run_def createJSContext_def destroyJSContext_def)
  have B: "createJSContext (Returns idle_wrapper) (registry_run ?between ?g1) = (2, ?g3)"
    unfolding run by (simp add: createJSContext_def valid)
  from context_identity_monotone [OF valid valid bound g A refl B] A B
  show ?thesis by simp
qed

subsection \<open>The evaluation boundary\<close>

text \<open>
  Claim C5. Whenever a \<^verbatim>\<open>std::exception\<close> is raised inside the boundary function, the
  context identity is not registered, the registered wrapper is not valid, or the engine
  answers with its exception marker (for the evaluation of the script, for the parsing of
  the JSON arguments, or for the call), or the named global is undefined, the string
  returned by \<^verbatim>\<open>nativeEvaluateScript\<close>, respectively \<^verbatim>\<open>nativeCallFunction\<close>,
  begins with \<open>ERROR:\<close>. Both functions are total and return a string in every case.
\<close>

theorem script_boundary_error_marker:
  "(raised \<noteq> None \<or> g_contexts g cid = None \<or>
    (\<exists>w. g_contexts g cid = Some w \<and>
         (\<not> isValid w \<or> JS_IsException (JS_Eval (wrapper_context w) script)))
    \<longrightarrow> prefix ''ERROR:'' (nativeEvaluateScript raised g cid script))
   \<and>
   (raised \<noteq> None \<or> g_contexts g cid = None \<or>
    (\<exists>w. g_contexts g cid = Some w \<and>
         (\<not> isValid w \<or>
          JS_IsUndefined (JS_GetPropertyStr_global (wrapper_context w) name) \<or>
          JS_IsException (JS_ParseJSON (wrapper_context w) args) \<or>
          JS_IsException
            (JS_Call (wrapper_context w) (JS_GetPropertyStr_global (wrapper_context w) name)
               (JS_ParseJSON (wrapper_context w) args))))
    \<longrightarrow> prefix ''ERROR:'' (nativeCallFunction raised g cid name args))"
proof (intro conjI impI)
  assume "raised \<noteq> None \<or> g_contexts g cid = None \<or>
    (\<exists>w. g_contexts g cid = Some w \<and>
         (\<not> isValid w \<or> JS_IsException (JS_Eval (wrapper_context w) script)))"
  then show "prefix ''ERROR:'' (nativeEvaluateScript raised g cid script)"
    by (auto simp: nativeEvaluateScript_def Let_def split: option.split)
next
  assume "raised \<noteq> None \<or> g_contexts g cid = None \<or>
    (\<exists>w. g_contexts g cid = Some w \<and>
         (\<not> isValid w \<or>
          JS_IsUndefined (JS_GetPropertyStr_global (wrapper_context w) name) \<or>
          JS_IsException (JS_ParseJSON (wrapper_context w) args) \<or>
          JS_IsException
            (JS_Call (wrapper_context w) (JS_GetPropertyStr_global (wrapper_context w) name)
               (JS_ParseJSON (wrapper_context w) args))))"
  then show "prefix ''ERROR:'' (nativeCallFunction raised g cid name args)"
    by (auto simp: nativeCallFunction_def Let_def split: option.split)
qed

theorem script_boundary_error_marker_witness:
  "nativeEvaluateScript None initial_registry 1 ''1 + 1'' = ''ERROR: Context not found''
   \<and> nativeEvaluateScript None \<lparr>g_contexts = [1 \<mapsto> failing_wrapper], g_next_context_id = 2\<rparr>
        1 ''var x = ;'' = ''ERROR: SyntaxError: unexpected token''
   \<and> nativeCallFunction None \<lparr>g_contexts = [1 \<mapsto> failing_wrapper], g_next_context_id = 2\<rparr>
        1 ''walk'' ''[]'' = ''ERROR: Function not found: walk''
   \<and> nativeCallFunction None \<lparr>g_contexts = [1 \<mapsto> failing_wrapper], g_next_context_id = 2\<rparr>
        1 ''run'' ''[1,'' = ''ERROR: Invalid JSON arguments''
   \<and> nativeCallFunction None \<lparr>g_contexts = [1 \<mapsto> failing_wrapper], g_next_context_id = 2\<rparr>
        1 ''run'' ''[]'' = ''ERROR: Unknown function call error''
   \<and> prefix ''ERROR:''
        (nativeCallFunction (Some ''std::bad_alloc'') initial_registry 1 ''run'' ''[]'')
   \<and> prefix ''ERROR:''
        (nativeEvaluateScript None \<lparr>g_contexts = [1 \<mapsto> failing_wrapper], g_next_context_id = 2\<rparr>
           1 ''var x = ;'')"
proof -
  let ?g = "\<lparr>g_contexts = [1 \<mapsto> failing_wrapper], g_next_context_id = (2::jlong)\<rparr>"
  have hyp: "None \<noteq> None \<or> g_contexts ?g 1 = None \<or>
    (\<exists>w. g_contexts ?g 1 = Some w \<and>
         (\<not> isValid w \<or> JS_IsException (JS_Eval (wrapper_context w) ''var x = ;'')))"
    by (simp add: failing_wrapper_def failing_context_def)
  have hyp': "Some ''std::bad_alloc'' \<noteq> None \<or> g_contexts initial_registry 1 = None \<or>
    (\<exists>w. g_contexts initial_registry 1 = Some w \<and>
         (\<not> isValid w \<or>
          JS_IsUndefined (JS_GetPropertyStr_global (wrapper_context w) ''run'') \<or>
          JS_IsException (JS_ParseJSON (wrapper_context w) ''[]'') \<or>
          JS_IsException
            (JS_Call (wrapper_context w) (JS_GetPropertyStr_global (wrapper_context w) ''run'')
               (JS_ParseJSON (wrapper_context w) ''[]''))))"
    by simp
  from script_boundary_error_marker [of None ?g 1 "''var x = ;''"] hyp
  have 1: "prefix ''ERROR:'' (nativeEvaluateScript None ?g 1 ''var x = ;'')"
    by blast
  from script_boundary_error_marker
         [of "Some ''std::bad_alloc''" initial_registry 1 _ "''run''" "''[]''"] hyp'
  have 2: "prefix ''ERROR:''
             (nativeCallFunction (Some ''std::bad_alloc'') initial_registry 1 ''run'' ''[]'')"
    by blast
  show ?thesis
    using 1 2
    by (simp add: nativeEvaluateScript_def nativeCallFunction_def initial_registry_def
          failing_wrapper_def failing_context_def)
qed

section \<open>Facts about the HTTP capability\<close>

lemma performHttpRequest_failed:
  assumes "transport_failed (curl request)"
  shows "responseCode (snd (performHttpRequest self curl request)) = - 1
       \<and> (\<exists>text. response_data (snd (performHttpRequest self curl request)) = ''ERROR: '' @ text)"
proof (cases "curl request")
  case curl_easy_init_failed
  then show ?thesis by (simp add: performHttpRequest_def)
next
  case (curl_easy_perform hs cs res code)
  with assms obtain strerror where "res = CURLE_failure strerror"
    by (cases res) auto
  with curl_easy_perform show ?thesis
    by (simp add: performHttpRequest_def Let_def)
next
  case (curl_setup_raised what)
  then show ?thesis by (simp add: performHttpRequest_def)
qed

lemma performHttpRequest_ok:
  assumes "curl request = curl_easy_perform hs cs CURLE_OK code"
  shows "responseCode (snd (performHttpRequest self curl request)) = code
       \<and> fst (performHttpRequest self curl request) = [(self, request)]"
  using assms by (simp add: performHttpRequest_def Let_def)

text \<open>
  Every transfer of a run of \<^verbatim>\<open>performHttpRequest\<close> is carried out by the thread that
  runs it, for the request that it was given.
\<close>

lemma performHttpRequest_thread:
  "set (fst (performHttpRequest self curl request)) \<subseteq> {(self, request)}"
  by (cases "curl request") (simp_all add: performHttpRequest_def Let_def)

text \<open>
  The task started by \<^verbatim>\<open>performHttpRequestAsync\<close> carries its transfer out on the thread
  of the task; the caller has carried out none when it receives the future.
\<close>

lemma performHttpRequestAsync_thread:
  assumes "performHttpRequestAsync task curl request = (performed, std_async thread run)"
  shows "performed = [] \<and> thread = task \<and> set (fst run) \<subseteq> {(task, request)}"
  using assms performHttpRequest_thread [of task curl request]
  by (auto simp: performHttpRequestAsync_def)

lemma ucast_minus_one_long: "(ucast (- 1 :: long) :: int32_t) = - 1"
  by (rule bit_word_eqI) (auto simp: bit_simps)

subsection \<open>The answers of the verbs\<close>

text \<open>
  With arguments that it accepts and no exception raised while the request is built, a verb
  hands a request for the given URL to \<^verbatim>\<open>performHttpRequest\<close> on its own thread and
  makes its answer from that run.
\<close>

lemma returnsI:
  assumes "answer = (fst run, Inr value)"
    and "property value ''status'' = Some (JS_NewInt32 (ucast (responseCode (snd run))))"
  shows "returns_response run answer"
  using assms by (simp add: returns_response_def answer_status_def)

lemma returns_dataI:
  assumes "answer = (performed, Inr value)"
    and "property value ''data'' = Some (JS_NewString (c_str (response_data (snd run))))"
  shows "returns_data run answer"
  using assms by (simp add: returns_data_def answer_data_def)

lemma js_http_get_returns:
  assumes "url_argument argv = Some address"
  shows "\<exists>request. request_url request = c_str address
           \<and> returns_response (performHttpRequest self curl request)
               (js_http_get self None curl argv)
           \<and> returns_data (performHttpRequest self curl request)
               (js_http_get self None curl argv)"
proof -
  from assms have args: "\<not> length argv < 1" "ToCString (argv ! 0) = Some address"
    by (auto simp: url_argument_def split: if_splits)
  let ?request =
    "HttpRequest_new\<lparr>request_url := c_str address, request_method := ''GET'',
       request_timeout := 15000,
       request_headers := optional_headers argv 1
         ((request_headers HttpRequest_new)
            (''Accept'' \<mapsto> ''application/json, text/plain, */*'',
             ''Accept-Language'' \<mapsto> ''zh-CN,zh;q=0.9,en;q=0.8''))\<rparr>"
  let ?run = "performHttpRequest self curl ?request"
  have answer: "js_http_get self None curl argv =
      (fst ?run,
       Inr (JS_NewObject
         [''status'' \<mapsto> JS_NewInt32 (ucast (responseCode (snd ?run))),
          ''data'' \<mapsto> JS_NewString (c_str (response_data (snd ?run))),
          ''contentType'' \<mapsto> JS_NewString (c_str (contentType (snd ?run))),
          ''headers'' \<mapsto> headersObj (snd ?run)]))"
    using args by (simp add: js_http_get_def Let_def case_prod_beta)
  have "request_url ?request = c_str address"
    by simp
  moreover have "returns_response ?run (js_http_get self None curl argv)"
    by (rule returnsI [OF answer]) simp
  moreover have "returns_data ?run (js_http_get self None curl argv)"
    by (rule returns_dataI [OF answer]) simp
  ultimately show ?thesis by blast
qed

lemma js_http_post_returns:
  assumes "url_data_arguments argv = Some address"
  shows "\<exists>request. request_url request = c_str address
           \<and> returns_response (performHttpRequest self curl request)
               (js_http_post self None curl argv)
           \<and> returns_data (performHttpRequest self curl request)
               (js_http_post self None curl argv)"
proof -
  from assms obtain data
    where args: "\<not> length argv < 2" "ToCString (argv ! 0) = Some address"
      "ToCString (argv ! 1) = Some data"
    by (auto simp: url_data_arguments_def split: if_splits)
  let ?request =
    "HttpRequest_new\<lparr>request_url := c_str address, request_method := ''POST'',
       request_data := c_str data, request_timeout := 15000,
       request_headers := optional_headers argv 2
         ((request_headers HttpRequest_new)
            (''Accept'' \<mapsto> ''application/json, text/plain, */*'',
             ''Content-Type'' \<mapsto> ''application/json; charset=UTF-8'',
             ''Accept-Language'' \<mapsto> ''zh-CN,zh;q=0.9,en;q=0.8''))\<rparr>"
  let ?run = "performHttpRequest self curl ?request"
  have answer: "js_http_post self None curl argv =
      (fst ?run,
       Inr (JS_NewObject
         [''status'' \<mapsto> JS_NewInt32 (ucast (responseCode (snd ?run))),
          ''data'' \<mapsto> JS_NewString (c_str (response_data (snd ?run))),
          ''contentType'' \<mapsto> JS_NewString (c_str (contentType (snd ?run))),
          ''headers'' \<mapsto> headersObj (snd ?run)]))"
    using args by (simp add: js_http_post_def Let_def case_prod_beta)
  have "request_url ?request = c_str address"
    by simp
  moreover have "returns_response ?run (js_http_post self None curl argv)"
    by (rule returnsI [OF answer]) simp
  moreover have "returns_data ?run (js_http_post self None curl argv)"
    by (rule returns_dataI [OF answer]) simp
  ultimately show ?thesis by blast
qed

lemma js_http_put_returns:
  assumes "url_data_arguments argv = Some address"
  shows "\<exists>request. request_url request = c_str address
           \<and> returns_response (performHttpRequest self curl request)
               (js_http_put self None curl argv)
           \<and> returns_data (performHttpRequest self curl request)
               (js_http_put self None curl argv)"
proof -
  from assms obtain data
    where args: "\<not> length argv < 2" "ToCString (argv ! 0) = Some address"
      "ToCString (argv ! 1) = Some data"
    by (auto simp: url_data_arguments_def split: if_splits)
  let ?request =
    "HttpRequest_new\<lparr>request_url := c_str address, request_method := ''PUT'',
       request_data := c_str data, request_timeout := 15000,
       request_headers := (request_headers HttpRequest_new)
            (''Accept'' \<mapsto> ''application/json, text/plain, */*'',
             ''Content-Type'' \<mapsto> ''application/json; charset=UTF-8'')\<rparr>"
  let ?run = "performHttpRequest self curl ?request"
  have answer: "js_http_put self None curl argv =
      (fst ?run,
       Inr (JS_NewObject
         [''status'' \<mapsto> JS_NewInt32 (ucast (responseCode (snd ?run))),
          ''data'' \<mapsto> JS_NewString (c_str (response_data (snd ?run)))]))"
    using args by (simp add: js_http_put_def Let_def case_prod_beta)
  have "request_url ?request = c_str address"
    by simp
  moreover have "returns_response ?run (js_http_put self None curl argv)"
    by (rule returnsI [OF answer]) simp
  moreover have "returns_data ?run (js_http_put self None curl argv)"
    by (rule returns_dataI [OF answer]) simp
  ultimately show ?thesis by blast
qed

lemma js_http_delete_returns:
  assumes "url_argument argv = Some address"
  shows "\<exists>request. request_url request = c_str address
           \<and> returns_response (performHttpRequest self curl request)
               (js_http_delete self None curl argv)
           \<and> returns_data (performHttpRequest self curl request)
               (js_http_delete self None curl argv)"
proof -
  from assms have args: "\<not> length argv < 1" "ToCString (argv ! 0) = Some address"
    by (auto simp: url_argument_def split: if_splits)
  let ?request =
    "HttpRequest_new\<lparr>request_url := c_str address, request_method := ''DELETE'',
       request_timeout := 15000\<rparr>"
  let ?run = "performHttpRequest self curl ?request"
  have answer: "js_http_delete self None curl argv =
      (fst ?run,
       Inr (JS_NewObject
         [''status'' \<mapsto> JS_NewInt32 (ucast (responseCode (snd ?run))),
          ''data'' \<mapsto> JS_NewString (c_str (response_data (snd ?run)))]))"
    using args by (simp add: js_http_delete_def Let_def case_prod_beta)
  have "request_url ?request = c_str address"
    by simp
  moreover have "returns_response ?run (js_http_delete self None curl argv)"
    by (rule returnsI [OF answer]) simp
  moreover have "returns_data ?run (js_http_delete self None curl argv)"
    by (rule returns_dataI [OF answer]) simp
  ultimately show ?thesis by blast
qed

text \<open>The value that \<open>httpHead\<close> returns has neither a \<open>data\<close> nor an \<open>error\<close> property.\<close>

lemma js_http_head_returns:
  assumes "url_argument argv = Some address"
  shows "\<exists>request. request_url request = c_str address
           \<and> returns_response (performHttpRequest self curl request)
               (js_http_head self None curl argv)
           \<and> answer_data (snd (js_http_head self None curl argv)) = None
           \<and> answer_error (snd (js_http_head self None curl argv)) = None"
proof -
  from assms have args: "\<not> length argv < 1" "ToCString (argv ! 0) = Some address"
    by (auto simp: url_argument_def split: if_splits)
  let ?request =
    "HttpRequest_new\<lparr>request_url := c_str address, request_method := ''HEAD'',
       request_timeout := 15000\<rparr>"
  let ?run = "performHttpRequest self curl ?request"
  have answer: "js_http_head self None curl argv =
      (fst ?run,
       Inr (JS_NewObject
         [''status'' \<mapsto> JS_NewInt32 (ucast (responseCode (snd ?run))),
          ''headers'' \<mapsto> headersObj (snd ?run)]))"
    using args by (simp add: js_http_head_def Let_def case_prod_beta)
  have "request_url ?request = c_str address"
    by simp
  moreover have "returns_response ?run (js_http_head self None curl argv)"
    by (rule returnsI [OF answer]) simp
  moreover have "answer_data (snd (js_http_head self None curl argv)) = None"
    by (simp add: answer answer_data_def)
  moreover have "answer_error (snd (js_http_head self None curl argv)) = None"
    by (simp add: answer answer_error_def)
  ultimately show ?thesis by blast
qed

lemma js_http_request_returns:
  assumes "options_url argv = Some address"
  shows "\<exists>request. request_url request = c_str address
           \<and> returns_response (performHttpRequest self curl request)
               (js_http_request self None curl argv)
           \<and> returns_data (performHttpRequest self curl request)
               (js_http_request self None curl argv)"
proof -
  from assms have args: "\<not> (length argv < 1 \<or> \<not> IsObject (argv ! 0))"
    "ToCString (JS_GetPropertyStr (argv ! 0) ''url'') = Some address"
    by (auto simp: options_url_def split: if_splits)
  define with_method where "with_method =
    (case ToCString (JS_GetPropertyStr (argv ! 0) ''method'') of
       Some method \<Rightarrow> HttpRequest_new\<lparr>request_url := c_str address, request_method := c_str method\<rparr>
     | None \<Rightarrow> HttpRequest_new\<lparr>request_url := c_str address\<rparr>)"
  define with_data where "with_data =
    (case ToCString (JS_GetPropertyStr (argv ! 0) ''data'') of
       Some data \<Rightarrow> with_method\<lparr>request_data := c_str data\<rparr>
     | None \<Rightarrow> with_method)"
  define with_timeout where "with_timeout =
    (case ToInt32 (JS_GetPropertyStr (argv ! 0) ''timeout'') of
       Some timeout \<Rightarrow>
         if 0 <s timeout then with_data\<lparr>request_timeout := scast timeout\<rparr> else with_data
     | None \<Rightarrow> with_data)"
  define request where "request =
    (if IsObject (JS_GetPropertyStr (argv ! 0) ''headers'') then
       (case OwnPropertyNames (JS_GetPropertyStr (argv ! 0) ''headers'') of
          Some props \<Rightarrow>
            with_timeout\<lparr>request_headers := set_headers props (request_headers with_timeout)\<rparr>
        | None \<Rightarrow> with_timeout)
     else with_timeout)"
  let ?run = "performHttpRequest self curl request"
  have "request_url with_method = c_str address"
    by (simp add: with_method_def split: option.split)
  then have "request_url with_data = c_str address"
    by (simp add: with_data_def split: option.split)
  then have "request_url with_timeout = c_str address"
    by (simp add: with_timeout_def split: option.split)
  then have address: "request_url request = c_str address"
    by (simp add: request_def split: option.split)
  have answer: "js_http_request self None curl argv =
      (fst ?run,
       Inr (JS_NewObject
         [''status'' \<mapsto> JS_NewInt32 (ucast (responseCode (snd ?run))),
          ''data'' \<mapsto> JS_NewString (c_str (response_data (snd ?run))),
          ''contentType'' \<mapsto> JS_NewString (c_str (contentType (snd ?run))),
          ''headers'' \<mapsto> headersObj (snd ?run)]))"
    unfolding js_http_request_def request_def with_timeout_def with_data_def with_method_def
    using args by (simp add: Let_def case_prod_beta)
  have "returns_response ?run (js_http_request self None curl argv)"
    by (rule returnsI [OF answer]) simp
  moreover have "returns_data ?run (js_http_request self None curl argv)"
    by (rule returns_dataI [OF answer]) simp
  ultimately show ?thesis using address by blast
qed

text \<open>Arguments that a verb does not accept are answered with a type error, and nothing is sent.\<close>

lemma js_http_get_rejects:
  assumes "url_argument argv = None"
  shows "fst (js_http_get self None curl argv) = []
       \<and> is_TypeError (snd (js_http_get self None curl argv))"
  using assms by (cases argv) (auto simp: js_http_get_def url_argument_def split: if_splits)

lemma js_http_post_rejects:
  assumes "url_data_arguments argv = None"
  shows "fst (js_http_post self None curl argv) = []
       \<and> is_TypeError (snd (js_http_post self None curl argv))"
  using assms
  by (cases "length argv < 2")
    (auto simp: js_http_post_def url_data_arguments_def not_less split: if_splits option.splits)

lemma js_http_put_rejects:
  assumes "url_data_arguments argv = None"
  shows "fst (js_http_put self None curl argv) = []
       \<and> is_TypeError (snd (js_http_put self None curl argv))"
  using assms
  by (cases "length argv < 2")
    (auto simp: js_http_put_def url_data_arguments_def not_less split: if_splits option.splits)

lemma js_http_delete_rejects:
  assumes "url_argument argv = None"
  shows "fst (js_http_delete self None curl argv) = []
       \<and> is_TypeError (snd (js_http_delete self None curl argv))"
  using assms by (cases argv) (auto simp: js_http_delete_def url_argument_def split: if_splits)

lemma js_http_head_rejects:
  assumes "url_argument argv = None"
  shows "fst (js_http_head self None curl argv) = []
       \<and> is_TypeError (snd (js_http_head self None curl argv))"
  using assms by (cases argv) (auto simp: js_http_head_def url_argument_def split: if_splits)

lemma js_http_request_rejects:
  assumes "options_url argv = None"
  shows "fst (js_http_request self None curl argv) = []
       \<and> is_TypeError (snd (js_http_request self None curl argv))"
  using assms
  by (cases argv) (auto simp: js_http_request_def options_url_def Let_def split: if_splits)

text \<open>What an answer made from a run of \<^verbatim>\<open>performHttpRequest\<close> shows of the transfer.\<close>

lemma returns_is_value:
  assumes "returns_response run answer"
  shows "\<exists>value. snd answer = Inr value"
  using assms by (cases "snd answer") (auto simp: returns_response_def answer_status_def)

lemma returns_failure_status:
  assumes "returns_response (performHttpRequest self curl request) answer"
    and "transport_failed (curl request)"
  shows "answer_status (snd answer) = Some (JS_NewInt32 (- 1))"
  using assms performHttpRequest_failed [of curl request self]
  by (simp add: returns_response_def ucast_minus_one_long)

lemma returns_failure_text:
  assumes "returns_response (performHttpRequest self curl request) answer"
    and "returns_data (performHttpRequest self curl request) answer"
    and "transport_failed (curl request)"
  shows "surfaces_failure (snd answer)"
proof -
  from assms(3) obtain description
    where "response_data (snd (performHttpRequest self curl request)) = ''ERROR: '' @ description"
    using performHttpRequest_failed [of curl request self] by blast
  with assms(2) have "answer_data (snd answer) = Some (JS_NewString (''ERROR: '' @ c_str description))"
    by (simp add: returns_data_def c_str_def)
  with returns_failure_status [OF assms(1) assms(3)] show ?thesis
    by (auto simp: surfaces_failure_def)
qed

lemma returns_success_status:
  assumes "returns_response (performHttpRequest self curl request) answer"
    and "curl request = curl_easy_perform hs cs CURLE_OK code"
  shows "answer_status (snd answer) = Some (JS_NewInt32 (ucast code))
       \<and> fst answer = [(self, request)]"
  using assms performHttpRequest_ok [of curl request hs cs code self]
  by (simp add: returns_response_def)

text \<open>
  The stub compiled without libcurl answers every request with status 200 and a JSON text
  that names the error \<open>HTTP_NOT_SUPPORTED\<close>.
\<close>

lemma performHttpRequest_stub_status:
  "responseCode (performHttpRequest_stub request) = 200
   \<and> sublist ''HTTP_NOT_SUPPORTED'' (response_data (performHttpRequest_stub request))"
proof -
  have "sublist ''HTTP_NOT_SUPPORTED''
          (([CHR ''{'', CHR 0x0A] @ ''        \"error\": \"'') @ ''HTTP_NOT_SUPPORTED'' @ rest)"
    for rest
    by (rule sublist_appendI)
  then show ?thesis
    by (simp add: performHttpRequest_stub_def)
qed

subsection \<open>Transport failures in the answers of the verbs\<close>

lemma all_verbs_cases:
  assumes "(verb, url_of) \<in> set all_verbs"
    and "P js_http_head url_argument"
    and "(verb, url_of) \<in> set data_verbs \<Longrightarrow> P verb url_of"
  shows "P verb url_of"
  using assms by (auto simp: all_verbs_def)

lemma data_verbs_cases:
  assumes "(verb, url_of) \<in> set data_verbs"
    and "P js_http_get url_argument"
    and "P js_http_post url_data_arguments"
    and "P js_http_put url_data_arguments"
    and "P js_http_delete url_argument"
    and "P js_http_request options_url"
    and "P js_http_get_async url_argument"
    and "P js_http_post_async url_data_arguments"
  shows "P verb url_of"
  using assms by (auto simp: data_verbs_def)

text \<open>
  Every verb with a \<open>data\<close> property, on arguments that it accepts, makes its answer from
  a run of \<^verbatim>\<open>performHttpRequest\<close> on its own thread, for a request to the given URL.
\<close>

lemma data_verbs_return:
  assumes "(verb, url_of) \<in> set data_verbs" and "url_of argv = Some address"
  shows "\<exists>request. request_url request = c_str address
           \<and> returns_response (performHttpRequest self curl request) (verb self None curl argv)
           \<and> returns_data (performHttpRequest self curl request) (verb self None curl argv)"
  using assms(2)
proof (induction rule: data_verbs_cases [OF assms(1), case_names get post put delete request
    get_async post_async])
  case get
  then show ?case by (rule js_http_get_returns)
next
  case post
  then show ?case by (rule js_http_post_returns)
next
  case put
  then show ?case by (rule js_http_put_returns)
next
  case delete
  then show ?case by (rule js_http_delete_returns)
next
  case request
  then show ?case by (rule js_http_request_returns)
next
  case get_async
  then show ?case unfolding js_http_get_async_def by (rule js_http_get_returns)
next
  case post_async
  then show ?case unfolding js_http_post_async_def by (rule js_http_post_returns)
qed

lemma all_verbs_return:
  assumes "(verb, url_of) \<in> set all_verbs" and "url_of argv = Some address"
  shows "\<exists>request. request_url request = c_str address
           \<and> returns_response (performHttpRequest self curl request) (verb self None curl argv)"
  using assms(2)
proof (induction rule: all_verbs_cases [OF assms(1), case_names head data])
  case head
  from js_http_head_returns [OF head] show ?case by blast
next
  case data
  from data_verbs_return [OF data] show ?case by blast
qed

lemma all_verbs_reject:
  assumes "(verb, url_of) \<in> set all_verbs" and "url_of argv = None"
  shows "fst (verb self None curl argv) = [] \<and> is_TypeError (snd (verb self None curl argv))"
  using assms(2)
proof (induction rule: all_verbs_cases [OF assms(1), case_names head data])
  case head
  then show ?case by (rule js_http_head_rejects)
next
  case data
  from data(2) show ?case
  proof (induction rule: data_verbs_cases [OF data(1), case_names get post put delete request
      get_async post_async])
    case get
    then show ?case by (rule js_http_get_rejects)
  next
    case post
    then show ?case by (rule js_http_post_rejects)
  next
    case put
    then show ?case by (rule js_http_put_rejects)
  next
    case delete
    then show ?case by (rule js_http_delete_rejects)
  next
    case request
    then show ?case by (rule js_http_request_rejects)
  next
    case get_async
    then show ?case unfolding js_http_get_async_def by (rule js_http_get_rejects)
  next
    case post_async
    then show ?case unfolding js_http_post_async_def by (rule js_http_post_rejects)
  qed
qed

text \<open>
  An exception raised while the request is built is answered with an internal error, and
  nothing is sent, whatever the transport would do.
\<close>

lemma all_verbs_raised:
  assumes "(verb, url_of) \<in> set all_verbs" and "url_of argv = Some address"
  shows "fst (verb self (Some w) curl argv) = []
       \<and> is_InternalError (snd (verb self (Some w) curl argv))"
proof -
  have address: "fst (verb self (Some w) curl argv) = []
       \<and> is_InternalError (snd (verb self (Some w) curl argv))"
    if "url_argument argv = Some address" and "verb \<in> {js_http_get, js_http_delete, js_http_head}"
    for verb
    using that
    by (cases argv)
      (auto simp: js_http_get_def js_http_delete_def js_http_head_def url_argument_def)
  have url_data: "fst (verb self (Some w) curl argv) = []
       \<and> is_InternalError (snd (verb self (Some w) curl argv))"
    if "url_data_arguments argv = Some address" and "verb \<in> {js_http_post, js_http_put}"
    for verb
    using that
    by (cases "length argv < 2")
      (auto simp: js_http_post_def js_http_put_def url_data_arguments_def not_less
        split: if_splits)
  have options: "fst (js_http_request self (Some w) curl argv) = []
       \<and> is_InternalError (snd (js_http_request self (Some w) curl argv))"
    if "options_url argv = Some address"
    using that by (cases argv) (auto simp: js_http_request_def options_url_def split: if_splits)
  from assms(2) show ?thesis
  proof (induction rule: all_verbs_cases [OF assms(1), case_names head data])
    case head
    then show ?case by (simp add: address)
  next
    case data
    from data(2) show ?case
    proof (induction rule: data_verbs_cases [OF data(1), case_names get post put delete request
        get_async post_async])
      case get
      then show ?case by (simp add: address)
    next
      case post
      then show ?case by (simp add: url_data)
    next
      case put
      then show ?case by (simp add: url_data)
    next
      case delete
      then show ?case by (simp add: address)
    next
      case request
      then show ?case by (rule options)
    next
      case get_async
      then show ?case by (simp add: js_http_get_async_def address)
    next
      case post_async
      then show ?case by (simp add: js_http_post_async_def url_data)
    qed
  qed
qed

text \<open>
  The status of a response value is the protocol status cut to 32 bits. A protocol status
  from 1 to \<open>2\<^sup>3\<^sup>1 - 1\<close> stays what it is.
\<close>

lemma status_of_protocol_status:
  fixes code :: long
  assumes "1 \<le> sint code" and "sint code < 2 ^ 31"
  shows "sint (ucast code :: int32_t) = sint code"
proof -
  have "sint (ucast code :: int32_t) = signed_take_bit 31 (sint code)"
    by (simp add: sint_uint signed_take_bit_eq_iff_take_bit_eq take_bit_signed_take_bit
          unsigned_ucast_eq take_bit_take_bit)
  also have "\<dots> = sint code"
    using assms by (simp add: signed_take_bit_int_eq_self_iff)
  finally show ?thesis .
qed

text \<open>An answer made from the run for a request reports what the transport does with it.\<close>

lemma returns_reports:
  assumes "returns_response (performHttpRequest self curl request) answer"
  shows "reports_transfer self curl request answer"
proof -
  have "\<exists>value. snd answer = Inr value"
    using assms by (rule returns_is_value)
  moreover have "set (fst answer) \<subseteq> {(self, request)}"
    using assms performHttpRequest_thread [of self curl request]
    by (simp add: returns_response_def)
  moreover have "answer_status (snd answer) = Some (JS_NewInt32 (- 1))"
    if "transport_failed (curl request)"
    using assms that by (rule returns_failure_status)
  moreover have "fst answer = [(self, request)]
      \<and> answer_status (snd answer) = Some (JS_NewInt32 (ucast code))
      \<and> (1 \<le> sint code \<and> sint code < 2 ^ 31 \<longrightarrow> status_number (snd answer) = Some (sint code))"
    if "curl request = curl_easy_perform hs cs CURLE_OK code" for hs cs code
    using returns_success_status [OF assms that]
    by (simp add: status_number_def status_of_protocol_status)
  ultimately show ?thesis
    unfolding reports_transfer_def by blast
qed

text \<open>
  Claim C7, as the code has it, for the build with libcurl and when no exception is raised
  while the request is built. A verb answers arguments that it does not accept with a type
  error, and sends nothing. On arguments that it accepts it builds a request to the given
  URL, and its answer reports what the transport does with that request: it is a response
  value, never a thrown exception; if the transport fails for the request, the status of
  the value is \<open>-1\<close>; if the transfer ends with \<^verbatim>\<open>CURLE_OK\<close>, the status is the protocol
  status cut to 32 bits, which for a protocol status from 1 to \<open>2\<^sup>3\<^sup>1 - 1\<close> is that
  number. For \<open>httpGet\<close>, \<open>httpPost\<close>, \<open>httpPut\<close>, \<open>httpDelete\<close>, \<open>httpRequest\<close>,
  \<open>httpGetAsync\<close> and \<open>httpPostAsync\<close> the data of the value is, after a failure,
  \<open>ERROR: \<close> followed by a description. The value that \<open>httpHead\<close> returns has neither
  a \<open>data\<close> nor an \<open>error\<close> property.
\<close>

theorem transport_failure_in_response:
  "(\<forall>(verb, url_of) \<in> set all_verbs.
       (url_of argv = None \<longrightarrow>
          fst (verb self None curl argv) = [] \<and> is_TypeError (snd (verb self None curl argv)))
     \<and> (\<forall>address. url_of argv = Some address \<longrightarrow>
          (\<exists>request. request_url request = c_str address
             \<and> reports_transfer self curl request (verb self None curl argv))))
   \<and> (\<forall>(verb, url_of) \<in> set data_verbs.
        \<forall>address. url_of argv = Some address \<longrightarrow>
          (\<exists>request. request_url request = c_str address
             \<and> reports_transfer self curl request (verb self None curl argv)
             \<and> (transport_failed (curl request) \<longrightarrow>
                   surfaces_failure (snd (verb self None curl argv)))))
   \<and> (\<forall>address. url_argument argv = Some address \<longrightarrow>
        answer_data (snd (js_http_head self None curl argv)) = None
        \<and> answer_error (snd (js_http_head self None curl argv)) = None)"
proof -
  have every_verb: "\<forall>(verb, url_of) \<in> set all_verbs.
       (url_of argv = None \<longrightarrow>
          fst (verb self None curl argv) = [] \<and> is_TypeError (snd (verb self None curl argv)))
     \<and> (\<forall>address. url_of argv = Some address \<longrightarrow>
          (\<exists>request. request_url request = c_str address
             \<and> reports_transfer self curl request (verb self None curl argv)))"
  proof (rule ballI)
    fix p
    assume p: "p \<in> set all_verbs"
    obtain verb url_of where pair: "p = (verb, url_of)"
      by (cases p)
    from p have verb: "(verb, url_of) \<in> set all_verbs"
      by (simp add: pair)
    have rejected: "fst (verb self None curl argv) = []
        \<and> is_TypeError (snd (verb self None curl argv))" if "url_of argv = None"
      using verb that by (rule all_verbs_reject)
    have accepted: "\<exists>request. request_url request = c_str address
        \<and> reports_transfer self curl request (verb self None curl argv)"
      if address: "url_of argv = Some address" for address
    proof -
      from all_verbs_return [OF verb address]
      obtain request where request: "request_url request = c_str address"
        and returns:
          "returns_response (performHttpRequest self curl request) (verb self None curl argv)"
        by blast
      from returns have "reports_transfer self curl request (verb self None curl argv)"
        by (rule returns_reports)
      with request show ?thesis
        by blast
    qed
    from rejected accepted
    show "case p of (verb, url_of) \<Rightarrow>
       (url_of argv = None \<longrightarrow>
          fst (verb self None curl argv) = [] \<and> is_TypeError (snd (verb self None curl argv)))
     \<and> (\<forall>address. url_of argv = Some address \<longrightarrow>
          (\<exists>request. request_url request = c_str address
             \<and> reports_transfer self curl request (verb self None curl argv)))"
      unfolding pair prod.case by blast
  qed
  have with_data: "\<forall>(verb, url_of) \<in> set data_verbs.
        \<forall>address. url_of argv = Some address \<longrightarrow>
          (\<exists>request. request_url request = c_str address
             \<and> reports_transfer self curl request (verb self None curl argv)
             \<and> (transport_failed (curl request) \<longrightarrow>
                   surfaces_failure (snd (verb self None curl argv))))"
  proof (rule ballI)
    fix p
    assume p: "p \<in> set data_verbs"
    obtain verb url_of where pair: "p = (verb, url_of)"
      by (cases p)
    from p have verb: "(verb, url_of) \<in> set data_verbs"
      by (simp add: pair)
    have "\<exists>request. request_url request = c_str address
             \<and> reports_transfer self curl request (verb self None curl argv)
             \<and> (transport_failed (curl request) \<longrightarrow>
                   surfaces_failure (snd (verb self None curl argv)))"
      if address: "url_of argv = Some address" for address
    proof -
      from data_verbs_return [OF verb address]
      obtain request where request: "request_url request = c_str address"
        and returns:
          "returns_response (performHttpRequest self curl request) (verb self None curl argv)"
        and data: "returns_data (performHttpRequest self curl request) (verb self None curl argv)"
        by blast
      from returns have "reports_transfer self curl request (verb self None curl argv)"
        by (rule returns_reports)
      moreover have "surfaces_failure (snd (verb self None curl argv))"
        if "transport_failed (curl request)"
        using returns data that by (rule returns_failure_text)
      ultimately show ?thesis
        using request by blast
    qed
    then show "case p of (verb, url_of) \<Rightarrow>
        \<forall>address. url_of argv = Some address \<longrightarrow>
          (\<exists>request. request_url request = c_str address
             \<and> reports_transfer self curl request (verb self None curl argv)
             \<and> (transport_failed (curl request) \<longrightarrow>
                   surfaces_failure (snd (verb self None curl argv))))"
      unfolding pair prod.case by blast
  qed
  have head: "\<forall>address. url_argument argv = Some address \<longrightarrow>
        answer_data (snd (js_http_head self None curl argv)) = None
        \<and> answer_error (snd (js_http_head self None curl argv)) = None"
    using js_http_head_returns [of argv _ self curl] by blast
  from every_verb with_data head show ?thesis
    by (intro conjI)
qed

lemma ball_pairD:
  assumes "\<forall>(a, b) \<in> S. P a b" and "(a, b) \<in> S"
  shows "P a b"
  using assms by auto

lemma accepted_arguments:
  "url_argument url_argv = Some ''https://example.org/a''"
  "url_data_arguments url_data_argv = Some ''https://example.org/a''"
  "options_url options_argv = Some ''https://example.org/a''"
  "url_argument [] = None"
  "url_data_arguments url_argv = None"
  "options_url url_argv = None"
  by (simp_all add: url_argument_def url_data_arguments_def options_url_def url_argv_def
        url_data_argv_def options_argv_def js_string_def JS_GetPropertyStr_def)

lemma curl_timeout_fails: "transport_failed (curl_timeout request)"
  by (simp add: curl_timeout_def)

lemma curl_ok_succeeds: "curl_ok request = curl_easy_perform [] [] CURLE_OK 200"
  by (simp add: curl_ok_def)

theorem transport_failure_in_response_witness:
  "url_argument url_argv = Some ''https://example.org/a''
   \<and> url_data_arguments url_data_argv = Some ''https://example.org/a''
   \<and> options_url options_argv = Some ''https://example.org/a''
   \<and> (\<forall>request. transport_failed (curl_timeout request))
   \<and> surfaces_failure (snd (js_http_get 0 None curl_timeout url_argv))
   \<and> answer_data (snd (js_http_get 0 None curl_timeout url_argv))
       = Some (JS_NewString ''ERROR: Timeout was reached'')
   \<and> surfaces_failure (snd (js_http_post 0 None curl_timeout url_data_argv))
   \<and> surfaces_failure (snd (js_http_put 0 None curl_timeout url_data_argv))
   \<and> surfaces_failure (snd (js_http_delete 0 None curl_timeout url_argv))
   \<and> surfaces_failure (snd (js_http_request 0 None curl_timeout options_argv))
   \<and> surfaces_failure (snd (js_http_get_async 0 None curl_timeout url_argv))
   \<and> surfaces_failure (snd (js_http_post_async 0 None curl_timeout url_data_argv))
   \<and> answer_status (snd (js_http_head 0 None curl_timeout url_argv)) = Some (JS_NewInt32 (- 1))
   \<and> answer_data (snd (js_http_head 0 None curl_timeout url_argv)) = None
   \<and> (\<forall>request. curl_ok request = curl_easy_perform [] [] CURLE_OK 200)
   \<and> map fst (fst (js_http_put 0 None curl_ok url_data_argv)) = [0]
   \<and> answer_status (snd (js_http_put 0 None curl_ok url_data_argv)) = Some (JS_NewInt32 200)
   \<and> status_number (snd (js_http_put 0 None curl_ok url_data_argv)) = Some 200
   \<and> url_argument [] = None
   \<and> is_TypeError (snd (js_http_delete 0 None curl_timeout []))
   \<and> url_data_arguments url_argv = None
   \<and> is_TypeError (snd (js_http_post 0 None curl_timeout url_argv))
   \<and> options_url url_argv = None
   \<and> is_TypeError (snd (js_http_request 0 None curl_timeout url_argv))"
proof -
  note with_url = transport_failure_in_response
    [where argv = url_argv and curl = curl_timeout and self = 0]
  note with_data = transport_failure_in_response
    [where argv = url_data_argv and curl = curl_timeout and self = 0]
  note with_options = transport_failure_in_response
    [where argv = options_argv and curl = curl_timeout and self = 0]
  note empty = transport_failure_in_response
    [where argv = "[]" and curl = curl_timeout and self = 0]
  note ok = transport_failure_in_response
    [where argv = url_data_argv and curl = curl_ok and self = 0]
  have data_members:
    "(js_http_get, url_argument) \<in> set data_verbs"
    "(js_http_post, url_data_arguments) \<in> set data_verbs"
    "(js_http_put, url_data_arguments) \<in> set data_verbs"
    "(js_http_delete, url_argument) \<in> set data_verbs"
    "(js_http_request, options_url) \<in> set data_verbs"
    "(js_http_get_async, url_argument) \<in> set data_verbs"
    "(js_http_post_async, url_data_arguments) \<in> set data_verbs"
    by (simp_all add: data_verbs_def)
  have members:
    "(js_http_head, url_argument) \<in> set all_verbs"
    "(js_http_put, url_data_arguments) \<in> set all_verbs"
    "(js_http_delete, url_argument) \<in> set all_verbs"
    "(js_http_post, url_data_arguments) \<in> set all_verbs"
    "(js_http_request, options_url) \<in> set all_verbs"
    by (simp_all add: data_verbs_def all_verbs_def)
  have get: "surfaces_failure (snd (js_http_get 0 None curl_timeout url_argv))"
    using ball_pairD [OF with_url [THEN conjunct2, THEN conjunct1] data_members(1)]
      accepted_arguments(1) curl_timeout_fails by blast
  have delete: "surfaces_failure (snd (js_http_delete 0 None curl_timeout url_argv))"
    using ball_pairD [OF with_url [THEN conjunct2, THEN conjunct1] data_members(4)]
      accepted_arguments(1) curl_timeout_fails by blast
  have get_async: "surfaces_failure (snd (js_http_get_async 0 None curl_timeout url_argv))"
    using ball_pairD [OF with_url [THEN conjunct2, THEN conjunct1] data_members(6)]
      accepted_arguments(1) curl_timeout_fails by blast
  have post: "surfaces_failure (snd (js_http_post 0 None curl_timeout url_data_argv))"
    using ball_pairD [OF with_data [THEN conjunct2, THEN conjunct1] data_members(2)]
      accepted_arguments(2) curl_timeout_fails by blast
  have put: "surfaces_failure (snd (js_http_put 0 None curl_timeout url_data_argv))"
    using ball_pairD [OF with_data [THEN conjunct2, THEN conjunct1] data_members(3)]
      accepted_arguments(2) curl_timeout_fails by blast
  have post_async: "surfaces_failure (snd (js_http_post_async 0 None curl_timeout url_data_argv))"
    using ball_pairD [OF with_data [THEN conjunct2, THEN conjunct1] data_members(7)]
      accepted_arguments(2) curl_timeout_fails by blast
  have request: "surfaces_failure (snd (js_http_request 0 None curl_timeout options_argv))"
    using ball_pairD [OF with_options [THEN conjunct2, THEN conjunct1] data_members(5)]
      accepted_arguments(3) curl_timeout_fails by blast
  have head_status:
    "answer_status (snd (js_http_head 0 None curl_timeout url_argv)) = Some (JS_NewInt32 (- 1))"
    using ball_pairD [OF with_url [THEN conjunct1] members(1)] accepted_arguments(1)
      curl_timeout_fails
    unfolding reports_transfer_def by blast
  have head_data: "answer_data (snd (js_http_head 0 None curl_timeout url_argv)) = None"
    using with_url [THEN conjunct2, THEN conjunct2] accepted_arguments(1) by blast
  from ball_pairD [OF ok [THEN conjunct1] members(2)] accepted_arguments(2)
  obtain sent where sent: "reports_transfer 0 curl_ok sent (js_http_put 0 None curl_ok url_data_argv)"
    by blast
  have small: "1 \<le> sint (200 :: long) \<and> sint (200 :: long) < 2 ^ 31"
    by simp
  from sent curl_ok_succeeds [of sent] small
  have put_ok: "fst (js_http_put 0 None curl_ok url_data_argv) = [(0, sent)]"
    "answer_status (snd (js_http_put 0 None curl_ok url_data_argv))
       = Some (JS_NewInt32 (ucast (200 :: long)))"
    "status_number (snd (js_http_put 0 None curl_ok url_data_argv)) = Some (sint (200 :: long))"
    unfolding reports_transfer_def by blast+
  have delete_rejects: "is_TypeError (snd (js_http_delete 0 None curl_timeout []))"
    using ball_pairD [OF empty [THEN conjunct1] members(3)] accepted_arguments(4) by blast
  have post_rejects: "is_TypeError (snd (js_http_post 0 None curl_timeout url_argv))"
    using ball_pairD [OF with_url [THEN conjunct1] members(4)] accepted_arguments(5) by blast
  have request_rejects: "is_TypeError (snd (js_http_request 0 None curl_timeout url_argv))"
    using ball_pairD [OF with_url [THEN conjunct1] members(5)] accepted_arguments(6) by blast
  have message: "answer_data (snd (js_http_get 0 None curl_timeout url_argv))
       = Some (JS_NewString ''ERROR: Timeout was reached'')"
    by (simp add: js_http_get_def url_argv_def js_string_def answer_data_def Let_def
          curl_timeout_def performHttpRequest_def c_str_def)
  from get message delete get_async post put post_async request head_status head_data put_ok
    delete_rejects post_rejects request_rejects accepted_arguments curl_timeout_fails
    curl_ok_succeeds
  show ?thesis
    by simp
qed

text \<open>
  Against claim C7 as stated: on a transfer that times out \<open>httpHead\<close> returns a response
  value with status \<open>-1\<close> that has no \<open>data\<close> and no \<open>error\<close> property, so no descriptive
  text accompanies the status.
\<close>

theorem head_failure_has_no_text:
  "transport_failed (curl_timeout (HttpRequest_new\<lparr>request_url := ''https://example.org/a'',
      request_method := ''HEAD'', request_timeout := 15000\<rparr>))
   \<and> js_http_head 0 None curl_timeout url_argv =
       ([(0, HttpRequest_new\<lparr>request_url := ''https://example.org/a'',
             request_method := ''HEAD'', request_timeout := 15000\<rparr>)],
        Inr (JS_NewObject [''status'' \<mapsto> JS_NewInt32 (- 1), ''headers'' \<mapsto> JS_NewObject Map.empty]))
   \<and> answer_status (snd (js_http_head 0 None curl_timeout url_argv)) = Some (JS_NewInt32 (- 1))
   \<and> answer_data (snd (js_http_head 0 None curl_timeout url_argv)) = None
   \<and> answer_error (snd (js_http_head 0 None curl_timeout url_argv)) = None"
  by (simp add: js_http_head_def url_argv_def js_string_def answer_status_def answer_data_def
        answer_error_def curl_timeout_def performHttpRequest_def c_str_def headersObj_def
        HttpResponse_new_def ucast_minus_one_long)

text \<open>
  The status alone does not tell a failure from a success for every protocol status that
  the transport may report: a transfer that ends with \<^verbatim>\<open>CURLE_OK\<close> and the protocol
  status 0 is answered with status 0, and one with the protocol status \<open>2\<^sup>3\<^sup>2 - 1\<close> with
  status \<open>-1\<close>.
\<close>

lemma success_with_status_not_positive:
  "answer_status (snd (js_http_get 0 None (\<lambda>request. curl_easy_perform [] [] CURLE_OK 0) url_argv))
     = Some (JS_NewInt32 0)
   \<and> answer_status
       (snd (js_http_get 0 None (\<lambda>request. curl_easy_perform [] [] CURLE_OK 4294967295) url_argv))
     = Some (JS_NewInt32 (- 1))"
  by (simp add: js_http_get_def url_argv_def js_string_def answer_status_def
        performHttpRequest_def Let_def)

subsection \<open>The verbs with an asynchronous name\<close>

lemma performHttpRequest_threadD:
  assumes "(thread, sent) \<in> set (fst (performHttpRequest self curl request))"
  shows "thread = self"
  using assms performHttpRequest_thread [of self curl request] by auto

text \<open>Every transfer of \<open>httpGet\<close> and of \<open>httpPost\<close> is carried out by the thread that runs the verb.\<close>

lemma js_http_get_thread:
  assumes "(thread, sent) \<in> set (fst (js_http_get self raised curl argv))"
  shows "thread = self"
  using assms
  by (auto simp: js_http_get_def Let_def case_prod_beta dest: performHttpRequest_threadD
      split: if_splits option.splits)

lemma js_http_post_thread:
  assumes "(thread, sent) \<in> set (fst (js_http_post self raised curl argv))"
  shows "thread = self"
  using assms
  by (auto simp: js_http_post_def Let_def case_prod_beta dest: performHttpRequest_threadD
      split: if_splits option.splits)

text \<open>
  Claim C9. For every thread that runs them, every exception raised while the request is
  built, every transport and every argument vector, the verbs with an asynchronous name
  answer what their counterparts answer: the same value or the same thrown script
  exception, and the same transfers. Every transfer is carried out by the thread that runs
  the verb. On arguments that the verb accepts, the answer is made from a run of
  \<^verbatim>\<open>performHttpRequest\<close> on that thread, for a request to the given URL: the transfers
  carried out when the verb returns are those of the run, and the value returned holds the
  status and the body of its response. So the transfer is over when the verb returns, and
  nothing is handed to another thread or left for later.
\<close>

theorem async_verbs_are_synchronous:
  "js_http_get_async self raised curl argv = js_http_get self raised curl argv
   \<and> js_http_post_async self raised curl argv = js_http_post self raised curl argv
   \<and> (\<forall>(thread, sent) \<in> set (fst (js_http_get_async self raised curl argv)). thread = self)
   \<and> (\<forall>(thread, sent) \<in> set (fst (js_http_post_async self raised curl argv)). thread = self)
   \<and> (\<forall>address. url_argument argv = Some address \<longrightarrow>
        (\<exists>request. request_url request = c_str address
           \<and> returns_response (performHttpRequest self curl request)
               (js_http_get_async self None curl argv)
           \<and> returns_data (performHttpRequest self curl request)
               (js_http_get_async self None curl argv)))
   \<and> (\<forall>address. url_data_arguments argv = Some address \<longrightarrow>
        (\<exists>request. request_url request = c_str address
           \<and> returns_response (performHttpRequest self curl request)
               (js_http_post_async self None curl argv)
           \<and> returns_data (performHttpRequest self curl request)
               (js_http_post_async self None curl argv)))"
proof -
  have get: "js_http_get_async self raised curl argv = js_http_get self raised curl argv"
    for raised
    by (simp add: js_http_get_async_def)
  have post: "js_http_post_async self raised curl argv = js_http_post self raised curl argv"
    for raised
    by (simp add: js_http_post_async_def)
  have "\<forall>(thread, sent) \<in> set (fst (js_http_get self raised curl argv)). thread = self"
    using js_http_get_thread [of _ _ self raised curl argv] by blast
  moreover have "\<forall>(thread, sent) \<in> set (fst (js_http_post self raised curl argv)). thread = self"
    using js_http_post_thread [of _ _ self raised curl argv] by blast
  moreover have "\<forall>address. url_argument argv = Some address \<longrightarrow>
        (\<exists>request. request_url request = c_str address
           \<and> returns_response (performHttpRequest self curl request)
               (js_http_get self None curl argv)
           \<and> returns_data (performHttpRequest self curl request)
               (js_http_get self None curl argv))"
    using js_http_get_returns [of argv _ self curl] by blast
  moreover have "\<forall>address. url_data_arguments argv = Some address \<longrightarrow>
        (\<exists>request. request_url request = c_str address
           \<and> returns_response (performHttpRequest self curl request)
               (js_http_post self None curl argv)
           \<and> returns_data (performHttpRequest self curl request)
               (js_http_post self None curl argv))"
    using js_http_post_returns [of argv _ self curl] by blast
  ultimately show ?thesis
    unfolding get post by (intro conjI refl)
qed

theorem async_verbs_are_synchronous_witness:
  "map fst (fst (js_http_get_async 7 None curl_ok url_argv)) = [7]
   \<and> map fst (fst (js_http_post_async 7 None curl_ok url_data_argv)) = [7]
   \<and> url_argument url_argv = Some ''https://example.org/a''
   \<and> (\<exists>request. request_url request = ''https://example.org/a''
         \<and> returns_response (performHttpRequest 7 curl_ok request)
             (js_http_get_async 7 None curl_ok url_argv)
         \<and> returns_data (performHttpRequest 7 curl_ok request)
             (js_http_get_async 7 None curl_ok url_argv))
   \<and> url_data_arguments url_data_argv = Some ''https://example.org/a''
   \<and> (\<exists>request. request_url request = ''https://example.org/a''
         \<and> returns_response (performHttpRequest 7 curl_ok request)
             (js_http_post_async 7 None curl_ok url_data_argv)
         \<and> returns_data (performHttpRequest 7 curl_ok request)
             (js_http_post_async 7 None curl_ok url_data_argv))
   \<and> answer_status (snd (js_http_get_async 7 None curl_ok url_argv)) = Some (JS_NewInt32 200)
   \<and> js_http_get_async 7 None curl_timeout [] =
       ([], Inl (TypeError ''httpGet requires at least 1 argument''))
   \<and> js_http_post_async 7 (Some ''std::bad_alloc'') curl_timeout url_data_argv =
       ([], Inl (InternalError ''HTTP POST request failed: std::bad_alloc''))
   \<and> snd (performHttpRequestAsync 8 curl_ok HttpRequest_new) =
       std_async 8 ([(8, HttpRequest_new)], HttpResponse_new\<lparr>responseCode := 200\<rparr>)"
proof -
  note get = async_verbs_are_synchronous
    [where self = 7 and raised = None and curl = curl_ok and argv = url_argv]
  note post = async_verbs_are_synchronous
    [where self = 7 and raised = None and curl = curl_ok and argv = url_data_argv]
  note empty = async_verbs_are_synchronous
    [where self = 7 and raised = None and curl = curl_timeout and argv = "[]"]
  note raised = async_verbs_are_synchronous
    [where self = 7 and raised = "Some ''std::bad_alloc''" and curl = curl_timeout
       and argv = url_data_argv]
  have sent: "length (fst (js_http_get 7 None curl_ok url_argv)) = 1"
    "length (fst (js_http_post 7 None curl_ok url_data_argv)) = 1"
    by (simp_all add: js_http_get_def js_http_post_def url_argv_def url_data_argv_def
          js_string_def performHttpRequest_def curl_ok_def Let_def)
  have one: "map fst xs = [t]" if "length xs = 1" and "\<forall>(thread, sent) \<in> set xs. thread = t"
    for xs :: transfers and t
    using that by (cases xs) auto
  have get_thread: "map fst (fst (js_http_get_async 7 None curl_ok url_argv)) = [7]"
  proof (rule one)
    from sent(1) show "length (fst (js_http_get_async 7 None curl_ok url_argv)) = 1"
      by (simp add: get [THEN conjunct1])
    from get show "\<forall>(thread, sent) \<in> set (fst (js_http_get_async 7 None curl_ok url_argv)).
        thread = 7"
      by (elim conjE)
  qed
  have post_thread: "map fst (fst (js_http_post_async 7 None curl_ok url_data_argv)) = [7]"
  proof (rule one)
    from sent(2) show "length (fst (js_http_post_async 7 None curl_ok url_data_argv)) = 1"
      by (simp add: post [THEN conjunct2, THEN conjunct1])
    from post show
      "\<forall>(thread, sent) \<in> set (fst (js_http_post_async 7 None curl_ok url_data_argv)).
        thread = 7"
      by (elim conjE)
  qed
  have "answer_status (snd (js_http_get 7 None curl_ok url_argv)) = Some (JS_NewInt32 200)"
    by (simp add: js_http_get_def url_argv_def js_string_def performHttpRequest_def curl_ok_def
          Let_def answer_status_def)
  then have status:
    "answer_status (snd (js_http_get_async 7 None curl_ok url_argv)) = Some (JS_NewInt32 200)"
    by (simp add: get [THEN conjunct1])
  have "js_http_get 7 None curl_timeout [] =
       ([], Inl (TypeError ''httpGet requires at least 1 argument''))"
    by (simp add: js_http_get_def)
  then have rejected: "js_http_get_async 7 None curl_timeout [] =
       ([], Inl (TypeError ''httpGet requires at least 1 argument''))"
    by (simp add: empty [THEN conjunct1])
  have "js_http_post 7 (Some ''std::bad_alloc'') curl_timeout url_data_argv =
       ([], Inl (InternalError ''HTTP POST request failed: std::bad_alloc''))"
    by (simp add: js_http_post_def url_data_argv_def js_string_def)
  then have internal: "js_http_post_async 7 (Some ''std::bad_alloc'') curl_timeout url_data_argv =
       ([], Inl (InternalError ''HTTP POST request failed: std::bad_alloc''))"
    by (simp add: raised [THEN conjunct2, THEN conjunct1])
  have future: "snd (performHttpRequestAsync 8 curl_ok HttpRequest_new) =
       std_async 8 ([(8, HttpRequest_new)], HttpResponse_new\<lparr>responseCode := 200\<rparr>)"
    by (simp add: performHttpRequestAsync_def performHttpRequest_def curl_ok_def)
  have same: "c_str ''https://example.org/a'' = ''https://example.org/a''"
    by (simp add: c_str_def)
  from get accepted_arguments(1) obtain get_request
    where "request_url get_request = c_str ''https://example.org/a''"
      and "returns_response (performHttpRequest 7 curl_ok get_request)
             (js_http_get_async 7 None curl_ok url_argv)"
      and "returns_data (performHttpRequest 7 curl_ok get_request)
             (js_http_get_async 7 None curl_ok url_argv)"
    by blast
  then have get_run: "\<exists>request. request_url request = ''https://example.org/a''
         \<and> returns_response (performHttpRequest 7 curl_ok request)
             (js_http_get_async 7 None curl_ok url_argv)
         \<and> returns_data (performHttpRequest 7 curl_ok request)
             (js_http_get_async 7 None curl_ok url_argv)"
    by (intro exI [of _ get_request]) (simp add: same)
  from post accepted_arguments(2) obtain post_request
    where "request_url post_request = c_str ''https://example.org/a''"
      and "returns_response (performHttpRequest 7 curl_ok post_request)
             (js_http_post_async 7 None curl_ok url_data_argv)"
      and "returns_data (performHttpRequest 7 curl_ok post_request)
             (js_http_post_async 7 None curl_ok url_data_argv)"
    by blast
  then have post_run: "\<exists>request. request_url request = ''https://example.org/a''
         \<and> returns_response (performHttpRequest 7 curl_ok request)
             (js_http_post_async 7 None curl_ok url_data_argv)
         \<and> returns_data (performHttpRequest 7 curl_ok request)
             (js_http_post_async 7 None curl_ok url_data_argv)"
    by (intro exI [of _ post_request]) (simp add: same)
  from get_thread post_thread accepted_arguments(1) get_run accepted_arguments(2) post_run
    status rejected internal future
  show ?thesis
    by (intro conjI)
qed

section \<open>Facts about the regular expressions\<close>

lemma sequence_Cons: "sequence (t # ts) = Cat t (sequence ts)"
  by (simp add: sequence_def)

lemma sequence_Nil: "sequence [] = Eps"
  by (simp add: sequence_def)

lemma ways_Cat_iff:
  "(m, a, g) \<in> set (ways icase (Cat r1 r2) s) \<longleftrightarrow>
     (\<exists>m1 s1 g1 m2 g2. (m1, s1, g1) \<in> set (ways icase r1 s) \<and>
        (m2, a, g2) \<in> set (ways icase r2 s1) \<and> m = m1 @ m2 \<and> g = g1 @ g2)"
  by force

lemma ways_One_iff:
  "(m, a, g) \<in> set (ways icase (Atom t One) s) \<longleftrightarrow>
     (\<exists>x. s = x # a \<and> atom_matches icase t x \<and> m = [x] \<and> g = [])"
  by (cases s) auto

lemma ways_literal:
  assumes "(m, a, g) \<in> set (ways False (sequence (literal w @ ts)) s)"
  shows "\<exists>m' s'. m = w @ m' \<and> (m', a, g) \<in> set (ways False (sequence ts) s')"
  using assms
proof (induction w arbitrary: m s g)
  case Nil
  then show ?case by (auto simp: literal_def)
next
  case (Cons c w)
  from Cons.prems obtain m2 g2 where s: "s = c # drop 1 s" and m: "m = c # m2" and g: "g = g2"
    and rest: "(m2, a, g2) \<in> set (ways False (sequence (literal w @ ts)) (drop 1 s))"
    by (auto simp: literal_def sequence_Cons ways_Cat_iff ways_One_iff)
  from Cons.IH [OF rest] obtain m' s' where "m2 = w @ m'"
    and "(m', a, g2) \<in> set (ways False (sequence ts) s')"
    by blast
  with m g show ?case by auto
qed

lemma ways_Optional:
  assumes "(m, a, g) \<in> set (ways False (sequence (Atom (Lit c) Optional # ts)) s)"
  shows "(\<exists>m' s'. m = c # m' \<and> (m', a, g) \<in> set (ways False (sequence ts) s'))
       \<or> (m, a, g) \<in> set (ways False (sequence ts) s)"
  using assms
  by (cases s) (auto simp: sequence_Cons ways_Cat_iff split: if_splits)

lemma ways_scheme_then:
  assumes "(m, a, g) \<in> set (ways False (scheme_then ts) s)"
  shows "absolute m"
proof -
  from assms obtain m1 s1 where m: "m = ''http'' @ m1"
    and 1: "(m1, a, g) \<in> set (ways False
              (sequence (Atom (Lit CHR ''s'') Optional # literal ''://'' @ ts)) s1)"
    using ways_literal [of m a g "''http''" "[Atom (Lit CHR ''s'') Optional] @ literal ''://'' @ ts" s]
    by (auto simp: scheme_then_def)
  from ways_Optional [OF 1] obtain m2 s2 where
    "(m1 = CHR ''s'' # m2 \<or> m1 = m2) \<and> (m2, a, g) \<in> set (ways False (sequence (literal ''://'' @ ts)) s2)"
    by blast
  then obtain m3 where "m1 = CHR ''s'' # m2 \<or> m1 = m2" and "m2 = ''://'' @ m3"
    using ways_literal [of m2 a g "''://''" ts s2] by blast
  with m show ?thesis
    by (auto simp: absolute_def)
qed

lemma ways_bare_address:
  assumes "(m, a, g) \<in> set (ways False (bare_address ext) s)"
  shows "absolute (match_str (b, m, a, g) 1)"
proof -
  from assms obtain g' where g: "g = (1, m) # g'"
    and "\<exists>ts. (m, a, g') \<in> set (ways False (scheme_then ts) s)"
    by (auto simp: bare_address_def sequence_Cons sequence_Nil ways_Cat_iff)
  then show ?thesis
    using ways_scheme_then by auto
qed

lemma search_from_ways:
  "search_from rx passed s = Some found \<Longrightarrow>
     \<exists>t. way_of found \<in> set (ways (snd rx) (fst rx) t)"
proof (induction s arbitrary: passed)
  case Nil
  then show ?case
    by (cases rx) (auto split: list.splits intro: exI [of _ "[]"])
next
  case (Cons x xs)
  obtain r icase where rx: "rx = (r, icase)" by (cases rx)
  show ?case
  proof (cases "ways icase r (x # xs)")
    case Nil
    with Cons show ?thesis by (simp add: rx)
  next
    case (Cons w ws)
    with Cons.prems have "way_of found = w"
      by (cases w) (auto simp: rx)
    with Cons show ?thesis
      by (auto simp: rx intro!: exI [of _ "x # xs"])
  qed
qed

lemma regex_iterate_ways:
  "found \<in> set (regex_iterate rx s) \<Longrightarrow> \<exists>t. way_of found \<in> set (ways (snd rx) (fst rx) t)"
proof (induction rx s arbitrary: found rule: regex_iterate.induct)
  case (1 rx s)
  show ?case
  proof (cases "regex_search s rx")
    case None
    with "1.prems" show ?thesis
      by (subst (asm) regex_iterate.simps) simp
  next
    case (Some first)
    obtain b m a g where first: "first = (b, m, a, g)" by (cases first)
    have first_way: "\<exists>t. way_of first \<in> set (ways (snd rx) (fst rx) t)"
      using Some search_from_ways [of rx "[]" s first] by (simp add: regex_search_def)
    show ?thesis
    proof (cases "found = first")
      case True
      with first_way show ?thesis by simp
    next
      case False
      note neq = this
      show ?thesis
      proof (cases "m = []")
        case False
        with "1.prems" Some first neq have "found \<in> set (regex_iterate rx a)"
          by (subst (asm) regex_iterate.simps) simp
        with "1.IH"(1) [OF Some first [symmetric] refl refl False] show ?thesis
          by simp
      next
        case True
        note empty = this
        show ?thesis
        proof (cases a)
          case Nil
          with "1.prems" Some first neq empty show ?thesis
            by (subst (asm) regex_iterate.simps) simp
        next
          case (Cons x xs)
          show ?thesis
          proof (cases "find (\<lambda>w. fst w \<noteq> []) (ways (snd rx) (fst rx) a)")
            case None
            have IH: "\<And>f. f \<in> set (regex_iterate rx xs) \<Longrightarrow>
                        \<exists>t. way_of f \<in> set (ways (snd rx) (fst rx) t)"
              using "1.IH"(2) [OF Some first [symmetric] refl refl _ Cons] empty None Cons
              by simp
            from "1.prems" Some first neq empty Cons None
            have shifted: "found \<in> set (case regex_iterate rx xs of [] \<Rightarrow> []
                    | (before', f) # later \<Rightarrow> (x # before', f) # later)"
              by (subst (asm) regex_iterate.simps) simp
            show ?thesis
            proof (cases "regex_iterate rx xs")
              case Nil
              with shifted show ?thesis by simp
            next
              case (Cons h later)
              obtain hb hm ha hg where h: "h = (hb, hm, ha, hg)" by (cases h)
              from shifted Cons h have "found = (x # hb, hm, ha, hg) \<or> found \<in> set later"
                by simp
              then show ?thesis
              proof
                assume "found = (x # hb, hm, ha, hg)"
                then have "way_of found = way_of h" by (simp add: h)
                with IH [of h] Cons show ?thesis by simp
              next
                assume "found \<in> set later"
                with IH [of found] Cons show ?thesis by simp
              qed
            qed
          next
            case (Some second)
            obtain m' a' g' where second: "second = (m', a', g')" by (cases second)
            from find_SomeD [OF Some] have second_way: "second \<in> set (ways (snd rx) (fst rx) a)"
              by simp
            from "1.prems" \<open>regex_search s rx = Some first\<close> first neq empty Cons Some second
            have "found = ([], m', a', g') \<or> found \<in> set (regex_iterate rx a')"
              by (subst (asm) regex_iterate.simps) simp
            then show ?thesis
            proof
              assume "found = ([], m', a', g')"
              with second_way second show ?thesis by auto
            next
              assume "found \<in> set (regex_iterate rx a')"
              with "1.IH"(3) [OF \<open>regex_search s rx = Some first\<close> first [symmetric] refl refl _ Cons Some
                  second [symmetric] refl] empty
              show ?thesis by simp
            qed
          qed
        qed
      qed
    qed
  qed
qed


section \<open>Facts about the extraction engine\<close>

lemma playUrl_patterns_compiled:
  "regex_vector playUrl_patterns = Inr (bare_patterns @ quoted_patterns)"
  by code_simp

lemma domain_pattern_compiled:
  "std_regex ''https?://[^/]+'' False
     = Inr (scheme_then [Atom (Bracket True [BChar CHR ''/'']) Plus], False)"
  by code_simp

lemma title_patterns_compile: "\<not> isl (regex_vector title_patterns)"
  by code_simp

lemma thumbnail_patterns_compile: "\<not> isl (regex_vector thumbnail_patterns)"
  by code_simp

lemma metadata_patterns_compile: "\<not> isl (regex_vector (map snd metadata_patterns))"
  by code_simp

lemma tag_pattern_compiles: "\<not> isl (std_regex ''<[^>]*>'' False)"
  by code_simp

lemma image_pattern_compiles:
  "\<not> isl (std_regex ([bs] @ ''.(jpg|jpeg|png|gif|bmp|webp)('' @ [bs] @ ''?|$)'') True)"
  by code_simp

text \<open>
  The second pattern of \<^verbatim>\<open>extractDownloadUrls\<close> opens a group that it does not close, so
  building the vector of patterns raises \<^verbatim>\<open>std::regex_error\<close>.
\<close>

lemma download_patterns_raise: "regex_vector download_patterns = Inl error_paren"
  by code_simp

lemma extractDownloadUrls_raises: "extractDownloadUrls baseUrl html = Inl error_paren"
  by (simp add: extractDownloadUrls_def download_patterns_raise)

lemma stripHtmlTags_returns: "\<exists>t. stripHtmlTags s = Inr t"
  using tag_pattern_compiles
  by (cases "std_regex ''<[^>]*>'' False") (auto simp: stripHtmlTags_def)

lemma isImageUrl_returns: "\<exists>b. isImageUrl u = Inr b"
  using image_pattern_compiles
  by (cases "std_regex ([bs] @ ''.(jpg|jpeg|png|gif|bmp|webp)('' @ [bs] @ ''?|$)'') True")
    (auto simp: isImageUrl_def)

lemma makeAbsoluteUrl_returns: "\<exists>t. makeAbsoluteUrl baseUrl u = Inr t"
  by (auto simp: makeAbsoluteUrl_def domain_pattern_compiled split: option.split)

lemma title_loop_returns: "\<exists>t. title_loop patterns html = Inr t"
proof (induction patterns)
  case Nil
  show ?case by simp
next
  case (Cons p ps)
  show ?case
  proof (cases "regex_search html p")
    case None
    with Cons show ?thesis by simp
  next
    case (Some match)
    obtain stripped where "stripHtmlTags (match_str match 1) = Inr stripped"
      using stripHtmlTags_returns by blast
    with Some Cons show ?thesis
      by (auto simp: Let_def)
  qed
qed

lemma extractTitle_returns: "\<exists>t. extractTitle html = Inr t"
  using title_patterns_compile title_loop_returns
  by (cases "regex_vector title_patterns") (auto simp: extractTitle_def)

lemma thumbnail_loop_returns: "\<exists>t. thumbnail_loop patterns baseUrl html = Inr t"
proof (induction patterns)
  case Nil
  show ?case by simp
next
  case (Cons p ps)
  show ?case
  proof (cases "regex_search html p")
    case None
    with Cons show ?thesis by simp
  next
    case (Some match)
    obtain b where "isImageUrl (match_str match 1) = Inr b"
      using isImageUrl_returns by blast
    with Some Cons makeAbsoluteUrl_returns [of baseUrl "match_str match 1"] show ?thesis
      by (auto simp: Let_def)
  qed
qed

lemma extractThumbnail_returns: "\<exists>t. extractThumbnail baseUrl html = Inr t"
  using thumbnail_patterns_compile thumbnail_loop_returns
  by (cases "regex_vector thumbnail_patterns") (auto simp: extractThumbnail_def)

lemma extractPlayUrls_returns:
  "extractPlayUrls html = Inr (play_url_loop (bare_patterns @ quoted_patterns) html [])"
  by (simp add: extractPlayUrls_def playUrl_patterns_compiled)

text \<open>
  Whatever the address and the page are, \<^verbatim>\<open>nativeParse\<close> ends in its \<^verbatim>\<open>catch\<close> clause:
  title, thumbnail and play addresses are extracted, then \<^verbatim>\<open>extractDownloadUrls\<close> raises,
  and the result that is returned is the one built from the exception.
\<close>

lemma nativeParse_raises:
  "nativeParse duration released urlStr htmlStr = errorResult duration released error_paren"
proof -
  obtain t where t: "extractTitle htmlStr = Inr t"
    using extractTitle_returns by blast
  obtain th where th: "extractThumbnail urlStr htmlStr = Inr th"
    using extractThumbnail_returns by blast
  show ?thesis
    by (simp add: nativeParse_def t th extractPlayUrls_returns extractDownloadUrls_raises)
qed

text \<open>
  Claim C1, on a page with none of the recognised patterns. The extractors of title,
  thumbnail and play addresses answer with the default title, no thumbnail and no address;
  \<^verbatim>\<open>extractDownloadUrls\<close> raises; and the result of \<^verbatim>\<open>nativeParse\<close> has an empty title,
  which is not the default title, and the text of the exception in its error field.
\<close>

theorem nativeParse_plain_page:
  "extractTitle ''<p>plain text</p>'' = Inr unknown_title
   \<and> extractThumbnail ''https://example.org/page'' ''<p>plain text</p>'' = Inr []
   \<and> extractPlayUrls ''<p>plain text</p>'' = Inr []
   \<and> extractDownloadUrls ''https://example.org/page'' ''<p>plain text</p>'' = Inl error_paren
   \<and> title (nativeParse duration released ''https://example.org/page'' ''<p>plain text</p>'') = []
   \<and> title (nativeParse duration released ''https://example.org/page'' ''<p>plain text</p>'')
       \<noteq> unknown_title
   \<and> error (nativeParse duration released ''https://example.org/page'' ''<p>plain text</p>'')
       = what error_paren
   \<and> error (nativeParse duration released ''https://example.org/page'' ''<p>plain text</p>'') \<noteq> []"
proof -
  have "extractTitle ''<p>plain text</p>'' = Inr unknown_title"
    by code_simp
  moreover have "extractThumbnail ''https://example.org/page'' ''<p>plain text</p>'' = Inr []"
    by code_simp
  moreover have "extractPlayUrls ''<p>plain text</p>'' = Inr []"
    by code_simp
  moreover have "[] \<noteq> unknown_title"
    by (simp add: unknown_title_def)
  ultimately show ?thesis
    by (simp add: nativeParse_raises extractDownloadUrls_raises errorResult_def)
qed

text \<open>
  Claim C2, on the page of the scenario. \<^verbatim>\<open>extractTitle\<close> finds \<open>Demo\<close> and
  \<^verbatim>\<open>extractPlayUrls\<close> finds the one address, once; \<^verbatim>\<open>extractDownloadUrls\<close> raises, and
  the result of \<^verbatim>\<open>nativeParse\<close> has an empty title and no play address.
\<close>

theorem nativeParse_demo_page:
  "extractTitle demo_html = Inr ''Demo''
   \<and> extractPlayUrls demo_html = Inr [''https://cdn.test/v.m3u8'']
   \<and> extractDownloadUrls urlStr demo_html = Inl error_paren
   \<and> title (nativeParse duration released urlStr demo_html) = []
   \<and> playUrls (nativeParse duration released urlStr demo_html) = []
   \<and> error (nativeParse duration released urlStr demo_html) = what error_paren
   \<and> error (nativeParse duration released urlStr demo_html) \<noteq> []"
proof -
  have "extractTitle demo_html = Inr ''Demo''"
    by code_simp
  moreover have "extractPlayUrls demo_html = Inr [''https://cdn.test/v.m3u8'']"
    by code_simp
  ultimately show ?thesis
    by (simp add: nativeParse_raises extractDownloadUrls_raises errorResult_def)
qed

text \<open>
  Claim C8. \<^verbatim>\<open>makeAbsoluteUrl\<close> takes the base from the member \<^verbatim>\<open>baseUrl\<close> (here the
  first argument) and the candidate as its parameter. The four equations of the
  specification hold, the last two for every base.
\<close>

theorem makeAbsoluteUrl_resolution:
  "makeAbsoluteUrl ''https://x.com/c/d'' ''/a/b.mp4'' = Inr ''https://x.com/a/b.mp4''
   \<and> makeAbsoluteUrl ''https://x.com/c/d/'' ''e.mp4'' = Inr ''https://x.com/c/d/e.mp4''
   \<and> makeAbsoluteUrl base ''//cdn.com/f.mp4'' = Inr ''https://cdn.com/f.mp4''
   \<and> makeAbsoluteUrl base ''https://y.com/g.mp4'' = Inr ''https://y.com/g.mp4''"
proof -
  have root: "makeAbsoluteUrl ''https://x.com/c/d'' ''/a/b.mp4'' = Inr ''https://x.com/a/b.mp4''"
    by code_simp
  have path: "makeAbsoluteUrl ''https://x.com/c/d/'' ''e.mp4'' = Inr ''https://x.com/c/d/e.mp4''"
    by code_simp
  have protocol: "makeAbsoluteUrl base ''//cdn.com/f.mp4'' = Inr ''https://cdn.com/f.mp4''"
    by (simp add: makeAbsoluteUrl_def)
  have unchanged: "makeAbsoluteUrl base ''https://y.com/g.mp4'' = Inr ''https://y.com/g.mp4''"
    by (simp add: makeAbsoluteUrl_def)
  from root path protocol unchanged show ?thesis by simp
qed

lemma first_occurrences_snoc:
  "first_occurrences (xs @ [x]) =
     (if x \<in> set xs then first_occurrences xs else first_occurrences xs @ [x])"
  by (simp add: first_occurrences_def)

lemma set_first_occurrences [simp]: "set (first_occurrences xs) = set xs"
  by (simp add: first_occurrences_def)

lemma distinct_first_occurrences [simp]: "distinct (first_occurrences xs)"
  by (simp add: first_occurrences_def)

lemma add_play_urls_first_occurrences:
  "add_play_urls matches (first_occurrences seen) =
     first_occurrences (seen @ map (\<lambda>match. match_str match 1) matches)"
proof (induction matches arbitrary: seen)
  case Nil
  show ?case by simp
next
  case (Cons match matches)
  let ?url = "match_str match 1"
  have "add_play_urls (match # matches) (first_occurrences seen)
          = add_play_urls matches (first_occurrences (seen @ [?url]))"
    by (simp add: first_occurrences_snoc Let_def)
  also have "\<dots> = first_occurrences ((seen @ [?url]) @ map (\<lambda>match. match_str match 1) matches)"
    by (rule Cons.IH)
  finally show ?case by simp
qed

lemma play_url_loop_first_occurrences:
  "play_url_loop patterns html (first_occurrences seen) =
     first_occurrences (seen @ concat (map (\<lambda>pattern. captures pattern html) patterns))"
proof (induction patterns arbitrary: seen)
  case Nil
  show ?case by simp
next
  case (Cons pattern patterns)
  have "play_url_loop (pattern # patterns) html (first_occurrences seen)
          = play_url_loop patterns html (first_occurrences (seen @ captures pattern html))"
    by (simp add: add_play_urls_first_occurrences captures_def)
  also have "\<dots> = first_occurrences ((seen @ captures pattern html) @
                      concat (map (\<lambda>pattern. captures pattern html) patterns))"
    by (rule Cons.IH)
  finally show ?case by simp
qed

lemma absolute_append: "absolute m \<Longrightarrow> absolute (m @ u)"
  by (auto simp: absolute_def prefix_def)

lemma find_last_of_append:
  "find_last_of (xs @ ys) c =
     (case find_last_of ys c of
        Some i \<Rightarrow> Some (length xs + i)
      | None \<Rightarrow> find_last_of xs c)"
  by (induction xs) (auto split: option.split)

lemma find_last_of_less:
  "find_last_of p c = Some k \<Longrightarrow> k < length p"
  by (induction p arbitrary: k) (auto split: option.splits if_splits)

lemma find_last_of_prefix_ge:
  "find_last_of p c = Some k \<Longrightarrow> \<exists>i. find_last_of (p @ r) c = Some i \<and> k \<le> i"
  using find_last_of_less [of p c k]
  by (simp add: find_last_of_append split: option.split)

lemma take_past_prefix:
  "length p \<le> n \<Longrightarrow> take n (p @ r) = p @ take (n - length p) r"
  by simp

lemma relative_to_scheme:
  assumes "base = (scheme @ ''://'') @ r"
  shows "prefix (scheme @ ''://'') (relative_to base u)"
proof -
  have "find_last_of (scheme @ ''://'') CHR ''/'' = Some (length scheme + 2)"
    by (simp add: find_last_of_append)
  from find_last_of_prefix_ge [OF this, of r] assms
  obtain i where i: "find_last_of base CHR ''/'' = Some i" and "length scheme + 2 \<le> i"
    by blast
  then have "length (scheme @ ''://'') \<le> i + 1"
    by simp
  then have "take (i + 1) base = (scheme @ ''://'') @ take (i + 1 - length (scheme @ ''://'')) r"
    unfolding assms by (rule take_past_prefix)
  then show ?thesis
    using i by (simp add: relative_to_def substr_def prefix_def)
qed

lemma relative_to_absolute:
  assumes "absolute base"
  shows "absolute (relative_to base u)"
proof -
  from assms consider r where "base = (''http'' @ ''://'') @ r"
    | r where "base = (''https'' @ ''://'') @ r"
    by (auto simp: absolute_def prefix_def)
  then show ?thesis
  proof cases
    case 1
    from relative_to_scheme [OF this] show ?thesis
      by (simp add: absolute_def)
  next
    case 2
    from relative_to_scheme [OF this] show ?thesis
      by (simp add: absolute_def)
  qed
qed

lemma regex_search_scheme_then:
  assumes "regex_search s (scheme_then ts, False) = Some match"
  shows "absolute (match_str match 0)"
proof -
  obtain b m a g where match: "match = (b, m, a, g)" by (cases match)
  from assms search_from_ways [of "(scheme_then ts, False)" "[]" s match]
  obtain t where "(m, a, g) \<in> set (ways False (scheme_then ts) t)"
    by (auto simp: regex_search_def match)
  from ways_scheme_then [OF this] show ?thesis
    by (simp add: match)
qed

lemma makeAbsoluteUrl_unchanged:
  "prefix ''http'' u \<Longrightarrow> makeAbsoluteUrl base u = Inr u"
  by (simp add: makeAbsoluteUrl_def string_find_Some_0_iff)

lemma makeAbsoluteUrl_absolute:
  assumes "\<not> prefix ''http'' u" and "prefix ''//'' u \<or> absolute base"
  shows "\<exists>t. makeAbsoluteUrl base u = Inr t \<and> absolute t"
proof (cases "prefix ''//'' u")
  case True
  then have "absolute (''https:'' @ u)"
    by (auto simp: absolute_def prefix_def)
  with True assms(1) show ?thesis
    by (simp add: makeAbsoluteUrl_def string_find_Some_0_iff)
next
  case False
  with assms(2) have base: "absolute base" by simp
  show ?thesis
  proof (cases "prefix ''/'' u")
    case True
    show ?thesis
    proof (cases "regex_search base (scheme_then [Atom (Bracket True [BChar CHR ''/'']) Plus], False)")
      case None
      with True False assms(1) relative_to_absolute [OF base] show ?thesis
        by (simp add: makeAbsoluteUrl_def string_find_Some_0_iff domain_pattern_compiled)
    next
      case (Some match)
      from regex_search_scheme_then [OF Some] have "absolute (match_str match 0 @ u)"
        by (rule absolute_append)
      with Some True False assms(1) show ?thesis
        by (simp add: makeAbsoluteUrl_def string_find_Some_0_iff domain_pattern_compiled)
    qed
  next
    case no_slash: False
    with False assms(1) relative_to_absolute [OF base] show ?thesis
      by (simp add: makeAbsoluteUrl_def string_find_Some_0_iff)
  qed
qed

lemma captures_bare_absolute:
  assumes "p \<in> set bare_patterns" and "u \<in> set (captures p html)"
  shows "absolute u"
proof -
  from assms(1) obtain ext where p: "p = (bare_address ext, False)"
    by (auto simp: bare_patterns_def)
  from assms(2) obtain found where found: "found \<in> set (regex_iterate p html)"
    and u: "u = match_str found 1"
    by (auto simp: captures_def)
  obtain b m a g where f: "found = (b, m, a, g)" by (cases found)
  from regex_iterate_ways [OF found] obtain t where
    "(m, a, g) \<in> set (ways False (bare_address ext) t)"
    by (auto simp: p f)
  from ways_bare_address [OF this, of b] show ?thesis
    by (simp add: u f)
qed

lemma extractPlayUrls_set:
  "\<exists>urls. extractPlayUrls html = Inr urls
     \<and> set urls = (\<Union>p \<in> set (bare_patterns @ quoted_patterns). set (captures p html))"
proof -
  have "play_url_loop (bare_patterns @ quoted_patterns) html (first_occurrences [])
          = first_occurrences
              ([] @ concat (map (\<lambda>pattern. captures pattern html)
                              (bare_patterns @ quoted_patterns)))"
    by (rule play_url_loop_first_occurrences)
  then show ?thesis
    by (auto simp: extractPlayUrls_returns first_occurrences_def)
qed

lemma thumbnail_loop_result:
  "\<exists>t. thumbnail_loop patterns base html = Inr t \<and>
     (t = [] \<or> (\<exists>p \<in> set patterns. \<exists>match. regex_search html p = Some match
                  \<and> makeAbsoluteUrl base (match_str match 1) = Inr t))"
proof (induction patterns)
  case Nil
  show ?case by simp
next
  case (Cons p ps)
  from Cons obtain t' where IH: "thumbnail_loop ps base html = Inr t'"
    "t' = [] \<or> (\<exists>p \<in> set ps. \<exists>match. regex_search html p = Some match
                  \<and> makeAbsoluteUrl base (match_str match 1) = Inr t')"
    by blast
  from IH(2) have later: "t' = [] \<or> (\<exists>p' \<in> set (p # ps). \<exists>match. regex_search html p' = Some match
                  \<and> makeAbsoluteUrl base (match_str match 1) = Inr t')"
    by auto
  show ?case
  proof (cases "regex_search html p")
    case None
    then have "thumbnail_loop (p # ps) base html = Inr t'"
      using IH(1) by simp
    with later show ?thesis by blast
  next
    case (Some match)
    obtain b where b: "isImageUrl (match_str match 1) = Inr b"
      using isImageUrl_returns by blast
    show ?thesis
    proof (cases b)
      case True
      obtain t where t: "makeAbsoluteUrl base (match_str match 1) = Inr t"
        using makeAbsoluteUrl_returns by blast
      have "thumbnail_loop (p # ps) base html = Inr t"
        using Some b True t by (simp add: Let_def)
      moreover have "\<exists>p' \<in> set (p # ps). \<exists>match. regex_search html p' = Some match
                  \<and> makeAbsoluteUrl base (match_str match 1) = Inr t"
        using Some t by (intro bexI [of _ p] exI [of _ match]) simp_all
      ultimately show ?thesis by blast
    next
      case False
      then have "thumbnail_loop (p # ps) base html = Inr t'"
        using Some b IH(1) by (simp add: Let_def)
      with later show ?thesis by blast
    qed
  qed
qed


text \<open>
  Claim C3, as the code has it. Every play address returned by \<^verbatim>\<open>extractPlayUrls\<close>
  begins with \<open>http://\<close> or \<open>https://\<close> unless it was captured by one of the four
  patterns for \<^verbatim>\<open>src=\<close> and \<^verbatim>\<open>url\<close>, whose quoted text is kept as it is written.
  \<^verbatim>\<open>makeAbsoluteUrl\<close> returns a candidate that begins with \<open>http\<close> unchanged; for any
  other candidate its result begins with \<open>http://\<close> or \<open>https://\<close> when the candidate
  begins with \<open>//\<close> or the base does. Hence, for a base that begins with \<open>http://\<close> or
  \<open>https://\<close>, the thumbnail is empty, or begins with \<open>http://\<close> or \<open>https://\<close>, or is a
  captured candidate that begins with \<open>http\<close>, unchanged.
\<close>

theorem addresses_absolute_by_pattern:
  "regex_vector playUrl_patterns = Inr (bare_patterns @ quoted_patterns)
   \<and> (\<exists>urls. extractPlayUrls html = Inr urls
      \<and> (\<forall>u \<in> set urls. absolute u \<or> (\<exists>p \<in> set quoted_patterns. u \<in> set (captures p html))))
   \<and> (prefix ''http'' candidate \<longrightarrow> makeAbsoluteUrl base candidate = Inr candidate)
   \<and> (\<not> prefix ''http'' candidate \<and> (prefix ''//'' candidate \<or> absolute base)
        \<longrightarrow> (\<exists>t. makeAbsoluteUrl base candidate = Inr t \<and> absolute t))
   \<and> (absolute base \<longrightarrow>
        (\<exists>patterns t. regex_vector thumbnail_patterns = Inr patterns
           \<and> extractThumbnail base html = Inr t
           \<and> (t = [] \<or> absolute t
                \<or> (prefix ''http'' t
                    \<and> (\<exists>p \<in> set patterns. \<exists>match. regex_search html p = Some match
                          \<and> t = match_str match 1)))))"
proof (intro conjI impI)
  show "regex_vector playUrl_patterns = Inr (bare_patterns @ quoted_patterns)"
    by (rule playUrl_patterns_compiled)
next
  from extractPlayUrls_set [of html] obtain urls where
    urls: "extractPlayUrls html = Inr urls"
    "set urls = (\<Union>p \<in> set (bare_patterns @ quoted_patterns). set (captures p html))"
    by blast
  have "absolute u \<or> (\<exists>p \<in> set quoted_patterns. u \<in> set (captures p html))"
    if "u \<in> set urls" for u
  proof -
    from that urls(2) obtain p where p: "p \<in> set bare_patterns \<or> p \<in> set quoted_patterns"
      and u: "u \<in> set (captures p html)"
      by auto
    from p show ?thesis
    proof
      assume "p \<in> set bare_patterns"
      from captures_bare_absolute [OF this u] show ?thesis ..
    next
      assume "p \<in> set quoted_patterns"
      with u show ?thesis by blast
    qed
  qed
  with urls(1) show "\<exists>urls. extractPlayUrls html = Inr urls
      \<and> (\<forall>u \<in> set urls. absolute u \<or> (\<exists>p \<in> set quoted_patterns. u \<in> set (captures p html)))"
    by blast
next
  assume "prefix ''http'' candidate"
  then show "makeAbsoluteUrl base candidate = Inr candidate"
    by (rule makeAbsoluteUrl_unchanged)
next
  assume "\<not> prefix ''http'' candidate \<and> (prefix ''//'' candidate \<or> absolute base)"
  then show "\<exists>t. makeAbsoluteUrl base candidate = Inr t \<and> absolute t"
    using makeAbsoluteUrl_absolute by blast
next
  assume base: "absolute base"
  obtain patterns where patterns: "regex_vector thumbnail_patterns = Inr patterns"
    using thumbnail_patterns_compile by (cases "regex_vector thumbnail_patterns") auto
  from thumbnail_loop_result [of patterns base html] obtain t where
    t: "thumbnail_loop patterns base html = Inr t"
    and made: "t = [] \<or> (\<exists>p \<in> set patterns. \<exists>match. regex_search html p = Some match
                  \<and> makeAbsoluteUrl base (match_str match 1) = Inr t)"
    by blast
  have "t = [] \<or> absolute t
         \<or> (prefix ''http'' t
             \<and> (\<exists>p \<in> set patterns. \<exists>match. regex_search html p = Some match
                   \<and> t = match_str match 1))"
  proof (cases "t = []")
    case True
    then show ?thesis by simp
  next
    case False
    with made obtain p match where p: "p \<in> set patterns"
      and match: "regex_search html p = Some match"
      and res: "makeAbsoluteUrl base (match_str match 1) = Inr t"
      by blast
    show ?thesis
    proof (cases "prefix ''http'' (match_str match 1)")
      case True
      with res makeAbsoluteUrl_unchanged [OF True, of base] have "t = match_str match 1"
        by simp
      with True p match show ?thesis by blast
    next
      case False
      with makeAbsoluteUrl_absolute [of "match_str match 1" base] base res
      show ?thesis by auto
    qed
  qed
  with patterns t show "\<exists>patterns t. regex_vector thumbnail_patterns = Inr patterns
           \<and> extractThumbnail base html = Inr t
           \<and> (t = [] \<or> absolute t
                \<or> (prefix ''http'' t
                    \<and> (\<exists>p \<in> set patterns. \<exists>match. regex_search html p = Some match
                          \<and> t = match_str match 1)))"
    by (auto simp: extractThumbnail_def)
qed

theorem addresses_absolute_by_pattern_witness:
  "extractPlayUrls mixed_page = Inr [''https://cdn.test/a.mp4'', ''c.m3u8'']
   \<and> absolute ''https://cdn.test/a.mp4''
   \<and> ''c.m3u8'' \<in> set (captures (src_address ''m3u8'', False) mixed_page)
   \<and> (src_address ''m3u8'', False) \<in> set quoted_patterns
   \<and> absolute ''https://x.com/p/q''
   \<and> makeAbsoluteUrl ''https://x.com/p/q'' ''/i/b.png'' = Inr ''https://x.com/i/b.png''
   \<and> makeAbsoluteUrl ''https://x.com/p/q'' ''http.png'' = Inr ''http.png''
   \<and> extractThumbnail ''https://x.com/p/q'' mixed_page = Inr ''https://x.com/i/b.png''
   \<and> absolute ''https://x.com/i/b.png''"
proof -
  have play: "extractPlayUrls mixed_page = Inr [''https://cdn.test/a.mp4'', ''c.m3u8'']"
    by code_simp
  have quoted: "''c.m3u8'' \<in> set (captures (src_address ''m3u8'', False) mixed_page)"
    by code_simp
  have member: "(src_address ''m3u8'', False) \<in> set quoted_patterns"
    by (simp add: quoted_patterns_def)
  have base: "absolute ''https://x.com/p/q''"
    by (simp add: absolute_def)
  have made: "makeAbsoluteUrl ''https://x.com/p/q'' ''/i/b.png'' = Inr ''https://x.com/i/b.png''"
    by code_simp
  have thumb: "extractThumbnail ''https://x.com/p/q'' mixed_page = Inr ''https://x.com/i/b.png''"
    by code_simp
  have no_http: "\<not> prefix ''http'' ''/i/b.png''" and http: "prefix ''http'' ''http.png''"
    by simp_all
  note inst = addresses_absolute_by_pattern [of mixed_page _ "''https://x.com/p/q''"]
  from inst [of "''/i/b.png''"] no_http base made
  have resolved: "absolute ''https://x.com/i/b.png''"
    by auto
  from inst [of "''http.png''"] http
  have kept: "makeAbsoluteUrl ''https://x.com/p/q'' ''http.png'' = Inr ''http.png''"
    by blast
  from inst [of "''http.png''"] play
  have first: "absolute ''https://cdn.test/a.mp4''
                 \<or> (\<exists>p \<in> set quoted_patterns. ''https://cdn.test/a.mp4'' \<in> set (captures p mixed_page))"
    by auto
  have "absolute ''https://cdn.test/a.mp4''"
    by (simp add: absolute_def)
  with play quoted member base made kept thumb resolved show ?thesis
    by simp
qed

text \<open>
  Against claim C3 as stated: the path of a \<^verbatim>\<open>src\<close> attribute becomes a play address as it
  is written, and \<^verbatim>\<open>nativeExtractPlayUrls\<close> hands it out; an image named \<open>http.png\<close>
  becomes the thumbnail unchanged even for an absolute base. Neither begins with
  \<open>http://\<close> or \<open>https://\<close>.
\<close>

theorem relative_addresses_returned:
  "extractPlayUrls relative_video_page = Inr [''/v/a.m3u8'']
   \<and> nativeExtractPlayUrls ''https://x.com/page'' relative_video_page
       = [CHR ''['', dq] @ ''/v/a.m3u8'' @ [dq, CHR '']'']
   \<and> ''/v/a.m3u8'' \<noteq> []
   \<and> \<not> absolute ''/v/a.m3u8''
   \<and> extractThumbnail ''https://x.com/page'' odd_image_page = Inr ''http.png''
   \<and> ''http.png'' \<noteq> []
   \<and> \<not> absolute ''http.png''"
proof -
  have "extractPlayUrls relative_video_page = Inr [''/v/a.m3u8'']"
    by code_simp
  moreover have "extractThumbnail ''https://x.com/page'' odd_image_page = Inr ''http.png''"
    by code_simp
  ultimately show ?thesis
    by (simp add: nativeExtractPlayUrls_def absolute_def)
qed


text \<open>
  The inner loop of \<^verbatim>\<open>extractDownloadUrls\<close> looks the captured text up among entries that
  were stored after \<^verbatim>\<open>makeAbsoluteUrl\<close>. On two matches that capture the same text, which
  is not in the list and which \<^verbatim>\<open>makeAbsoluteUrl\<close> changes, it stores the resolved
  address twice.
\<close>

lemma add_download_urls_repeats:
  assumes "match_str first 1 = captured" and "match_str second 1 = captured"
    and "captured \<notin> set urls"
    and "makeAbsoluteUrl baseUrl captured = Inr resolved" and "resolved \<noteq> captured"
  shows "add_download_urls baseUrl [first, second] urls = Inr (urls @ [resolved, resolved])"
  using assms by (simp add: Let_def)






end
